theory Spec2Isabelle
  imports Main "HOL-Library.Word" "HOL-Library.Multiset"
begin

unbundle bit_operations_syntax

section \<open>Go values used by the frame writer\<close>

type_synonym byte = "8 word"

text \<open>
  Modelled from the spec: the declarations of \<open>FrameFlag\<close> and \<open>Cmd\<close> are not in the two
  source files. The spec gives the flag set one byte on the wire and calls the command a
  24-bit tag; \<open>StartWrite\<close> shifts a \<open>Cmd\<close> by 16 bits, so it is an integer type wider
  than a byte. \<open>FrameFlag\<close> is taken as an unsigned 8-bit integer and \<open>Cmd\<close> as an unsigned
  32-bit integer.
\<close>

type_synonym FrameFlag = "8 word"
type_synonym Cmd = "32 word"

text \<open>
  A Go slice of bytes whose first element is the first element of its backing array (the
  writer only ever reslices from index 0). \<open>backing\<close> is the backing array, so its length is
  the capacity of the slice; \<open>slen\<close> is the length of the slice, and the bytes the slice
  shows are the first \<open>slen\<close> bytes of the array.
\<close>

record slice =
  backing :: "byte list"
  slen :: nat

definition nil_slice :: slice where
  "nil_slice = \<lparr>backing = [], slen = 0\<rparr>"

definition cap :: "slice \<Rightarrow> nat" where
  "cap s = length (backing s)"

definition contents :: "slice \<Rightarrow> byte list" where
  "contents s = take (slen s) (backing s)"

definition wf_slice :: "slice \<Rightarrow> bool" where
  "wf_slice s = (slen s \<le> cap s)"

text \<open>\<open>s[:n]\<close>: the same array with length \<open>n\<close>; Go panics when \<open>n\<close> exceeds the capacity.\<close>

definition slice_to :: "slice \<Rightarrow> nat \<Rightarrow> slice option" where
  "slice_to s n = (if n \<le> cap s then Some (s\<lparr>slen := n\<rparr>) else None)"

text \<open>
  \<open>append(s, xs...)\<close>. When the capacity suffices the bytes are written into the backing
  array after the first \<open>slen s\<close> bytes and the result shares the array (second component
  \<open>True\<close>). Otherwise a new zeroed array is allocated, the old bytes and \<open>xs\<close> are copied
  into it, and the old array is left as it was (second component \<open>False\<close>). How much spare
  capacity the Go runtime gives a new array is not fixed by the language: it is the
  parameter \<open>g\<close>, from the old capacity and the length needed to the number of spare bytes.
\<close>

definition go_append :: "(nat \<Rightarrow> nat \<Rightarrow> nat) \<Rightarrow> slice \<Rightarrow> byte list \<Rightarrow> slice \<times> bool" where
  "go_append g s xs =
     (let n = slen s + length xs in
      if n \<le> cap s
      then (\<lparr>backing = take (slen s) (backing s) @ xs @ drop n (backing s), slen = n\<rparr>, True)
      else (\<lparr>backing = take (slen s) (backing s) @ xs @ replicate (g (cap s) n) 0, slen = n\<rparr>,
            False))"

text \<open>
  \<open>_ = append(s[:n], xs...)\<close>: the result is thrown away, so \<open>s\<close> keeps its length and
  sees the new bytes only when the append wrote into the array that \<open>s\<close> shares.
  \<open>None\<close> is the panic of \<open>s[:n]\<close>.
\<close>

definition append_discard :: "(nat \<Rightarrow> nat \<Rightarrow> nat) \<Rightarrow> slice \<Rightarrow> nat \<Rightarrow> byte list \<Rightarrow> slice option" where
  "append_discard g s n xs =
     (case slice_to s n of
        None \<Rightarrow> None
      | Some t \<Rightarrow>
          (case go_append g t xs of
             (r, shared) \<Rightarrow> Some (if shared then s\<lparr>backing := backing r\<rparr> else s)))"

section \<open>The frame writer (framewriter.go)\<close>

record defaultFrameWriter =
  wbuf :: slice
  requestID :: "64 word"
  cmd :: Cmd
  flags :: FrameFlag

text \<open>\<open>newFrameWriter\<close>: a writer with a nil buffer and zero fields.\<close>

definition newFrameWriter :: defaultFrameWriter where
  "newFrameWriter = \<lparr>wbuf = nil_slice, requestID = 0, cmd = 0, flags = 0\<rparr>"

text \<open>\<open>byte(v >> k)\<close> on an unsigned integer: the bits \<open>k\<close> to \<open>k + 7\<close> of \<open>v\<close>.\<close>

definition byte_shr :: "'a::len word \<Rightarrow> nat \<Rightarrow> byte" where
  "byte_shr v k = ucast (drop_bit k v)"

text \<open>
  \<open>byte(length >> k)\<close> on Go's signed \<open>int\<close>: the shift is arithmetic (it rounds towards
  minus infinity, as \<open>drop_bit\<close> on \<open>int\<close> does) and the conversion keeps the low 8 bits.
  The length of a slice is a \<open>nat\<close> and \<open>len(wbuf) - 4\<close> an \<open>int\<close> without a bound: on a 64-bit
  platform a slice can hold \<open>2 ^ 32\<close> bytes and more, and \<open>len(wbuf) - 4\<close> never overflows.
\<close>

definition byte_shr_int :: "int \<Rightarrow> nat \<Rightarrow> byte" where
  "byte_shr_int v k = word_of_int (drop_bit k v)"

definition StartWrite ::
  "(nat \<Rightarrow> nat \<Rightarrow> nat) \<Rightarrow> defaultFrameWriter \<Rightarrow> 64 word \<Rightarrow> Cmd \<Rightarrow> FrameFlag \<Rightarrow> defaultFrameWriter" where
  "StartWrite g dfw rid c fl =
     (let hdr = [0, 0, 0, 0,
                 byte_shr rid 56, byte_shr rid 48, byte_shr rid 40, byte_shr rid 32,
                 byte_shr rid 24, byte_shr rid 16, byte_shr rid 8, byte_shr rid 0,
                 ucast fl,
                 byte_shr c 16, byte_shr c 8, byte_shr c 0]
      in dfw\<lparr>requestID := rid, cmd := c, flags := fl,
              wbuf := fst (go_append g ((wbuf dfw)\<lparr>slen := 0\<rparr>) hdr)\<rparr>)"

text \<open>
  The part of \<open>EndWrite\<close> before the call of \<open>writeFrame\<close>: the two discarded appends.
  \<open>len(dfw.wbuf) - 4\<close> is a signed \<open>int\<close>. \<open>None\<close> is the panic of \<open>dfw.wbuf[:12]\<close> on a
  buffer of capacity below 12.
\<close>

definition EndWrite_patch :: "(nat \<Rightarrow> nat \<Rightarrow> nat) \<Rightarrow> defaultFrameWriter \<Rightarrow> defaultFrameWriter option" where
  "EndWrite_patch g dfw =
     (let length = int (slen (wbuf dfw)) - 4 in
      case append_discard g (wbuf dfw) 0
             [byte_shr_int length 24, byte_shr_int length 16,
              byte_shr_int length 8, byte_shr_int length 0] of
        None \<Rightarrow> None
      | Some b1 \<Rightarrow>
          (case append_discard g b1 12 [ucast (flags dfw)] of
             None \<Rightarrow> None
           | Some b2 \<Rightarrow> Some (dfw\<lparr>wbuf := b2\<rparr>)))"

text \<open>
  \<open>EndWrite\<close>, \<open>StreamEndWrite\<close> and \<open>ResetFrame\<close>. \<open>fbw\<close> is the writer's \<open>FrameBytesWriter\<close>:
  its \<open>writeFrame\<close> reads the writer (the one implementation in the source files,
  \<open>serveconn.writeFrame\<close>, only calls its getters) and works on a connection \<open>'c\<close>; its
  result \<open>'r\<close> holds the error it returns and the connection after the call. The result
  of \<open>EndWrite\<close> is the writer after the call and what \<open>writeFrame\<close> returned; \<open>None\<close> is a
  panic.
\<close>

definition EndWrite ::
  "(nat \<Rightarrow> nat \<Rightarrow> nat) \<Rightarrow> (defaultFrameWriter \<Rightarrow> 'c \<Rightarrow> 'r) \<Rightarrow> defaultFrameWriter \<Rightarrow> 'c
     \<Rightarrow> (defaultFrameWriter \<times> 'r) option" where
  "EndWrite g fbw dfw c =
     (case EndWrite_patch g dfw of
        None \<Rightarrow> None
      | Some dfw' \<Rightarrow> Some (dfw', fbw dfw' c))"

text \<open>
  Modelled from the spec: \<open>ToEndStream\<close> is a method of \<open>FrameFlag\<close>, declared outside the two
  source files; the spec says it sets the \<open>EndStream\<close> flag. \<open>endflag\<close> is the mask of that
  flag.
\<close>

definition ToEndStream :: "FrameFlag \<Rightarrow> FrameFlag \<Rightarrow> FrameFlag" where
  "ToEndStream endflag fl = fl OR endflag"

definition StreamEndWrite ::
  "(nat \<Rightarrow> nat \<Rightarrow> nat) \<Rightarrow> FrameFlag \<Rightarrow> (defaultFrameWriter \<Rightarrow> 'c \<Rightarrow> 'r) \<Rightarrow> defaultFrameWriter
     \<Rightarrow> bool \<Rightarrow> 'c \<Rightarrow> (defaultFrameWriter \<times> 'r) option" where
  "StreamEndWrite g endflag fbw dfw end c =
     EndWrite g fbw (if end then dfw\<lparr>flags := ToEndStream endflag (flags dfw)\<rparr> else dfw) c"

definition ResetFrame ::
  "(nat \<Rightarrow> nat \<Rightarrow> nat) \<Rightarrow> FrameFlag \<Rightarrow> (defaultFrameWriter \<Rightarrow> 'c \<Rightarrow> 'r) \<Rightarrow> defaultFrameWriter
     \<Rightarrow> 64 word \<Rightarrow> Cmd \<Rightarrow> 'c \<Rightarrow> (defaultFrameWriter \<times> 'r) option" where
  "ResetFrame g rstflag fbw dfw rid reason c =
     EndWrite g fbw (StartWrite g dfw rid reason rstflag) c"

definition WriteUint64 :: "(nat \<Rightarrow> nat \<Rightarrow> nat) \<Rightarrow> defaultFrameWriter \<Rightarrow> 64 word \<Rightarrow> defaultFrameWriter" where
  "WriteUint64 g dfw v =
     dfw\<lparr>wbuf := fst (go_append g (wbuf dfw)
        [byte_shr v 56, byte_shr v 48, byte_shr v 40, byte_shr v 32,
         byte_shr v 24, byte_shr v 16, byte_shr v 8, byte_shr v 0])\<rparr>"

definition WriteUint32 :: "(nat \<Rightarrow> nat \<Rightarrow> nat) \<Rightarrow> defaultFrameWriter \<Rightarrow> 32 word \<Rightarrow> defaultFrameWriter" where
  "WriteUint32 g dfw v =
     dfw\<lparr>wbuf := fst (go_append g (wbuf dfw)
        [byte_shr v 24, byte_shr v 16, byte_shr v 8, byte_shr v 0])\<rparr>"

definition WriteUint16 :: "(nat \<Rightarrow> nat \<Rightarrow> nat) \<Rightarrow> defaultFrameWriter \<Rightarrow> 16 word \<Rightarrow> defaultFrameWriter" where
  "WriteUint16 g dfw v =
     dfw\<lparr>wbuf := fst (go_append g (wbuf dfw) [byte_shr v 8, byte_shr v 0])\<rparr>"

definition WriteUint8 :: "(nat \<Rightarrow> nat \<Rightarrow> nat) \<Rightarrow> defaultFrameWriter \<Rightarrow> byte \<Rightarrow> defaultFrameWriter" where
  "WriteUint8 g dfw v = dfw\<lparr>wbuf := fst (go_append g (wbuf dfw) [ucast v])\<rparr>"

definition WriteBytes :: "(nat \<Rightarrow> nat \<Rightarrow> nat) \<Rightarrow> defaultFrameWriter \<Rightarrow> byte list \<Rightarrow> defaultFrameWriter" where
  "WriteBytes g dfw v = dfw\<lparr>wbuf := fst (go_append g (wbuf dfw) v)\<rparr>"

text \<open>A payload append, and a sequence of them applied from left to right.\<close>

datatype payload_op =
  U8 byte | U16 "16 word" | U32 "32 word" | U64 "64 word" | Bytes "byte list"

fun write_op :: "(nat \<Rightarrow> nat \<Rightarrow> nat) \<Rightarrow> defaultFrameWriter \<Rightarrow> payload_op \<Rightarrow> defaultFrameWriter" where
  "write_op g dfw (U8 v) = WriteUint8 g dfw v"
| "write_op g dfw (U16 v) = WriteUint16 g dfw v"
| "write_op g dfw (U32 v) = WriteUint32 g dfw v"
| "write_op g dfw (U64 v) = WriteUint64 g dfw v"
| "write_op g dfw (Bytes v) = WriteBytes g dfw v"

definition write_ops :: "(nat \<Rightarrow> nat \<Rightarrow> nat) \<Rightarrow> defaultFrameWriter \<Rightarrow> payload_op list \<Rightarrow> defaultFrameWriter" where
  "write_ops g dfw ops = foldl (write_op g) dfw ops"

text \<open>The number a list of bytes stands for when read big-endian.\<close>

definition be_value :: "byte list \<Rightarrow> nat" where
  "be_value bs = foldl (\<lambda>a b. a * 256 + unat b) 0 bs"

section \<open>Auxiliary definitions for the frame writer\<close>

text \<open>The bytes a payload append adds.\<close>

fun op_bytes :: "payload_op \<Rightarrow> byte list" where
  "op_bytes (U8 v) = [v]"
| "op_bytes (U16 v) = [byte_shr v 8, byte_shr v 0]"
| "op_bytes (U32 v) = [byte_shr v 24, byte_shr v 16, byte_shr v 8, byte_shr v 0]"
| "op_bytes (U64 v) = [byte_shr v 56, byte_shr v 48, byte_shr v 40, byte_shr v 32,
                       byte_shr v 24, byte_shr v 16, byte_shr v 8, byte_shr v 0]"
| "op_bytes (Bytes v) = v"

text \<open>A writer whose frame has been started: a well-formed buffer of at least 16 bytes.\<close>

definition started :: "defaultFrameWriter \<Rightarrow> bool" where
  "started dfw = (wf_slice (wbuf dfw) \<and> 16 \<le> slen (wbuf dfw))"

text \<open>The four bytes \<open>EndWrite\<close> computes for a buffer of \<open>n\<close> bytes.\<close>

definition length_bytes :: "nat \<Rightarrow> byte list" where
  "length_bytes n =
     [byte_shr_int (int n - 4) 24, byte_shr_int (int n - 4) 16,
      byte_shr_int (int n - 4) 8, byte_shr_int (int n - 4) 0]"

text \<open>
  Concrete inputs: a runtime that allocates no spare capacity, a \<open>FrameBytesWriter\<close> that
  does nothing, a frame with a payload of \<open>2 ^ 32\<close> bytes, and a small frame.
\<close>

definition grow_exact :: "nat \<Rightarrow> nat \<Rightarrow> nat" where
  "grow_exact c n = 0"

definition fbw_nop :: "defaultFrameWriter \<Rightarrow> unit \<Rightarrow> unit" where
  "fbw_nop dfw c = ()"

definition huge_frame :: defaultFrameWriter where
  "huge_frame =
     WriteBytes grow_exact (StartWrite grow_exact newFrameWriter 0 0 0) (replicate (2 ^ 32) 0)"

definition sample_frame :: defaultFrameWriter where
  "sample_frame =
     (WriteBytes grow_exact (StartWrite grow_exact newFrameWriter 7 9 1) [0xAA, 0xBB])\<lparr>flags := 3\<rparr>"

definition sample_frame_ended :: defaultFrameWriter where
  "sample_frame_ended =
     \<lparr>wbuf = \<lparr>backing = [0, 0, 0, 14, 0, 0, 0, 0, 0, 0, 0, 7, 3, 0, 0, 9, 170, 187], slen = 18\<rparr>,
      requestID = 7, cmd = 9, flags = 3\<rparr>"

section \<open>The connection (conf.go)\<close>

subsection \<open>Values\<close>

text \<open>
  Go \<open>error\<close> values; \<open>nil\<close> is \<open>None\<close> of \<open>error option\<close>. \<open>CtxErr\<close> is what \<open>ctx.Err()\<close> returns
  once the context is done, \<open>OpError e\<close> is a \<open>*net.OpError\<close> whose field \<open>Err\<close> is \<open>e\<close>, and
  \<open>OtherErr\<close> stands for any other error of the network or the frame reader.
\<close>

datatype error =
    ErrRstNonExistingStream
  | ErrWriteAfterCloseSelf
  | ErrNoNewUUID
  | ErrConnAlreadyClosed
  | ErrFrameTooLarge
  | ErrInvalidPacket
  | CtxErr
  | OpError "error option"
  | OtherErr nat

text \<open>\<open>if opErr, ok := err.(*net.OpError); ok { err = opErr.Err }\<close>\<close>

fun unwrapOpError :: "error \<Rightarrow> error option" where
  "unwrapOpError (OpError e) = e"
| "unwrapOpError err = Some err"

text \<open>The label of a metric: \<open>fmt.Sprintf("%v", err)\<close> or one of the two fixed strings.\<close>

datatype errStr = Sprintf "error option" | Fixed string

definition errStrReadFramesForOverlayNetwork :: string where
  "errStrReadFramesForOverlayNetwork = ''readFrames err for OverlayNetwork''"

definition errStrWriteFramesForOverlayNetwork :: string where
  "errStrWriteFramesForOverlayNetwork = ''writeFrames err for OverlayNetwork''"

text \<open>
  A received frame, and what the reader sends on \<open>readFrameCh\<close> (\<open>res_f\<close> is the field \<open>f\<close>;
  \<open>readMore\<close> says whether the function \<open>readMore\<close> is non-nil).
\<close>

record Frame =
  RequestID :: "64 word"
  Flags :: FrameFlag
  Cmd :: Cmd
  Payload :: "byte list"

record readFrameResult =
  res_f :: Frame
  readMore :: bool

text \<open>
  Modelled from the spec: the type \<open>response\<close> and its methods \<open>SetResponse\<close> and \<open>Close\<close> are
  outside the two source files. The spec: a response slot holds a one-slot mailbox for the
  reply frame; delivering puts the frame into the mailbox; closing closes the mailbox.
  \<open>mailbox\<close> is what has been sent on the channel \<open>Frame\<close>.
\<close>

record response =
  mailbox :: "Frame list"
  mailbox_closed :: bool

definition new_response :: response where
  "new_response = \<lparr>mailbox = [], mailbox_closed = False\<rparr>"

definition SetResponse :: "response \<Rightarrow> Frame \<Rightarrow> response" where
  "SetResponse r fr = r\<lparr>mailbox := mailbox r @ [fr]\<rparr>"

definition response_Close :: "response \<Rightarrow> response" where
  "response_Close r = r\<lparr>mailbox_closed := True\<rparr>"

subsection \<open>What the connection calls and is not in the source files\<close>

text \<open>
  The flag predicates, the stream table (\<open>ConnStreams\<close> and \<open>Stream\<close>), the bytes writer, the
  frame reader, the socket, \<open>PoorManUUID\<close> and the binding of the server are declared outside
  the two source files: they are parameters. \<open>'cs\<close> is the state of the stream table (the
  streams included), \<open>'s\<close> a reference to a stream, \<open>'n\<close> the state of the socket with its
  reader and writer. \<open>GetStream\<close> returns \<open>None\<close> for Go's \<open>nil\<close>. \<open>PoorManUUID\<close> gives the
  result of the \<open>k\<close>-th call on this connection. \<open>CounterMetric\<close> and \<open>OverlayNetwork\<close> say
  whether the binding's fields of these names are non-nil. \<open>growslice\<close> is the growth
  policy of \<open>append\<close>.
\<close>

record ('cs, 's, 'n) env =
  growslice :: "nat \<Rightarrow> nat \<Rightarrow> nat"
  IsRst :: "FrameFlag \<Rightarrow> bool"
  IsPush :: "FrameFlag \<Rightarrow> bool"
  IsNonBlock :: "FrameFlag \<Rightarrow> bool"
  FromServer :: "Frame \<Rightarrow> bool"
  NBFlag :: FrameFlag
  GetStream :: "'cs \<Rightarrow> 64 word \<Rightarrow> FrameFlag \<Rightarrow> 's option"
  CreateOrGetStream :: "'cs \<Rightarrow> 64 word \<Rightarrow> FrameFlag \<Rightarrow> ('s \<times> bool) \<times> 'cs"
  AddOutFrame :: "'s \<Rightarrow> 64 word \<Rightarrow> FrameFlag \<Rightarrow> 'cs \<Rightarrow> bool \<times> 'cs"
  bytesWriter_Write :: "'n \<Rightarrow> byte list \<Rightarrow> error option \<times> 'n"
  ReadFrame :: "'n \<Rightarrow> 'cs \<Rightarrow> (error + Frame) \<times> 'n \<times> 'cs"
  rwc_Close :: "'n \<Rightarrow> error option \<times> 'n"
  PoorManUUID :: "nat \<Rightarrow> 64 word"
  CounterMetric :: bool
  OverlayNetwork :: bool

subsection \<open>The state of a connection\<close>

text \<open>
  The mutable state behind a \<open>serveconn\<close>: its context, stream table and socket, the
  \<open>untrack\<close> word and whether \<open>untrackedCh\<close> is closed, and the fields of its
  \<open>ConnectionInfo\<close> (\<open>closed\<close>, \<open>id\<close>, \<open>closeNotify\<close>, \<open>respes\<close>). A callback is a number and
  \<open>notified\<close> lists the callbacks invoked so far, in order; what a callback does itself is
  not modelled. \<open>respes\<close> is \<open>None\<close> for a nil map and maps a request id to the address of
  its \<open>response\<close>; \<open>responses\<close> is the heap of \<open>response\<close> objects and \<open>next_response\<close> the
  next free address. \<open>readFrameCh\<close> lists what has been sent on the channel, \<open>metrics\<close> what
  has been counted on \<open>CounterMetric\<close> (method and error label), and \<open>uuid_calls\<close> counts the
  calls of \<open>PoorManUUID\<close>.
\<close>

record ('cs, 'n) serveconn =
  ctx_done :: bool
  cs :: 'cs
  rwc :: 'n
  untrack :: nat
  untrackedCh_closed :: bool
  closed :: bool
  ci_id :: string
  closeNotify :: "nat list"
  notified :: "nat list"
  respes :: "(64 word \<rightharpoonup> nat) option"
  responses :: "nat \<Rightarrow> response"
  next_response :: nat
  readFrameCh :: "readFrameResult list"
  metrics :: "(string \<times> errStr) list"
  uuid_calls :: nat

subsection \<open>NotifyWhenClose, Close and closeUntracked\<close>

definition NotifyWhenClose :: "nat \<Rightarrow> ('cs, 'n) serveconn \<Rightarrow> ('cs, 'n) serveconn" where
  "NotifyWhenClose cb sc =
     (if closed sc then sc\<lparr>notified := notified sc @ [cb]\<rparr>
      else sc\<lparr>closeNotify := closeNotify sc @ [cb]\<rparr>)"

text \<open>
  Modelled from the spec: \<open>Server.untrack\<close> is outside the two source files. The comment on
  the field \<open>untrack\<close> says that only the first call to untrack actually does it and that
  later calls should wait for \<open>untrackedCh\<close>; the spec says the connection is untracked
  atomically from the server's registry and that a caller who finds it already being
  untracked waits for that operation to complete. The first call sets the word, removes
  the connection from the registry (not modelled) and closes the channel; it returns
  \<open>true\<close>, any later call \<open>false\<close>.
\<close>

definition server_untrack :: "('cs, 'n) serveconn \<Rightarrow> bool \<times> ('cs, 'n) serveconn" where
  "server_untrack sc =
     (if untrack sc = 0 then (True, sc\<lparr>untrack := 1, untrackedCh_closed := True\<rparr>)
      else (False, sc))"

text \<open>
  \<open>closeUntracked\<close>: close the socket and return its error if there is one; otherwise
  cancel the context, set \<open>closed\<close>, take the list of callbacks, clear it and call each
  callback in order.
\<close>

definition closeUntracked ::
  "('cs, 's, 'n) env \<Rightarrow> ('cs, 'n) serveconn \<Rightarrow> error option \<times> ('cs, 'n) serveconn" where
  "closeUntracked env sc =
     (case rwc_Close env (rwc sc) of
        (Some err, n') \<Rightarrow> (Some err, sc\<lparr>rwc := n'\<rparr>)
      | (None, n') \<Rightarrow>
          (None, sc\<lparr>rwc := n', ctx_done := True, closed := True, closeNotify := [],
                    notified := notified sc @ closeNotify sc\<rparr>))"

text \<open>
  \<open>Close\<close>, called when no other call of \<open>Close\<close> is under way. The rate limiter only
  delays the call. \<open>None\<close>: the call does not return, because it waits on \<open>untrackedCh\<close>,
  which nobody closes.
\<close>

definition Close ::
  "('cs, 's, 'n) env \<Rightarrow> ('cs, 'n) serveconn \<Rightarrow> (error option \<times> ('cs, 'n) serveconn) option" where
  "Close env sc =
     (case server_untrack sc of
        (ok, sc1) \<Rightarrow>
          if \<not> ok \<and> \<not> untrackedCh_closed sc1 then None
          else Some (closeUntracked env sc1))"

subsection \<open>writeFrame\<close>

text \<open>
  The end of \<open>writeFrame\<close>: the bytes of the writer's buffer go to the bytes writer; on an
  error the connection is closed, a \<open>*net.OpError\<close> is unwrapped and the error is counted.
  \<open>None\<close>: the call does not return (\<open>Close\<close> does not).
\<close>

definition writeFrame_bytes ::
  "('cs, 's, 'n) env \<Rightarrow> defaultFrameWriter \<Rightarrow> ('cs, 'n) serveconn
     \<Rightarrow> (error option \<times> ('cs, 'n) serveconn) option" where
  "writeFrame_bytes env dfw sc =
     (case bytesWriter_Write env (rwc sc) (contents (wbuf dfw)) of
        (None, n') \<Rightarrow> Some (None, sc\<lparr>rwc := n'\<rparr>)
      | (Some werr, n') \<Rightarrow>
          (case Close env (sc\<lparr>rwc := n'\<rparr>) of
             None \<Rightarrow> None
           | Some (cerr, sc1) \<Rightarrow>
               let err = unwrapOpError werr;
                   errStr = (if err \<noteq> None \<and> OverlayNetwork env
                             then Fixed errStrWriteFramesForOverlayNetwork else Sprintf err)
               in Some (err,
                    if CounterMetric env
                    then sc1\<lparr>metrics := metrics sc1 @ [(''writeFrame'', errStr)]\<rparr>
                    else sc1)))"

text \<open>
  \<open>writeFrame\<close>, with the write lock held from the second statement to the return (the
  model runs one call at a time). The first component of the result is the error
  returned.
\<close>

definition writeFrame ::
  "('cs, 's, 'n) env \<Rightarrow> defaultFrameWriter \<Rightarrow> ('cs, 'n) serveconn
     \<Rightarrow> (error option \<times> ('cs, 'n) serveconn) option" where
  "writeFrame env dfw sc =
     (if ctx_done sc then Some (Some CtxErr, sc)
      else
        let fl = flags dfw; rid = requestID dfw in
        if IsRst env fl then
          (case GetStream env (cs sc) rid fl of
             None \<Rightarrow> Some (Some ErrRstNonExistingStream, sc)
           | Some s \<Rightarrow>
               (case AddOutFrame env s rid fl (cs sc) of
                  (admitted, cs1) \<Rightarrow>
                    if \<not> admitted then Some (None, sc\<lparr>cs := cs1\<rparr>)
                    else writeFrame_bytes env dfw (sc\<lparr>cs := cs1\<rparr>)))
        else if \<not> IsPush env fl then
          (case CreateOrGetStream env (cs sc) rid fl of
             ((s, loaded), cs1) \<Rightarrow>
               (case AddOutFrame env s rid fl cs1 of
                  (admitted, cs2) \<Rightarrow>
                    if \<not> admitted then Some (Some ErrWriteAfterCloseSelf, sc\<lparr>cs := cs2\<rparr>)
                    else writeFrame_bytes env dfw (sc\<lparr>cs := cs2\<rparr>)))
        else writeFrame_bytes env dfw sc)"

subsection \<open>Request and writeFirstFrame\<close>

text \<open>
  The loop of \<open>writeFirstFrame\<close> that looks for a free request id: \<open>m\<close> is the map \<open>respes\<close>,
  \<open>i\<close> the loop counter, \<open>k\<close> the number of calls of \<open>PoorManUUID\<close> made so far and \<open>rid\<close> the
  candidate. The result is \<open>suc\<close>, the last candidate and the number of calls made.
\<close>

function uuid_loop ::
  "(nat \<Rightarrow> 64 word) \<Rightarrow> (64 word \<rightharpoonup> nat) \<Rightarrow> nat \<Rightarrow> nat \<Rightarrow> 64 word \<Rightarrow> bool \<times> 64 word \<times> nat" where
  "uuid_loop gen m i k rid =
     (if m rid = None then (True, rid, k)
      else if i + 1 \<ge> 3 then (False, rid, k)
      else uuid_loop gen m (i + 1) (k + 1) (gen k))"
  by pat_completeness auto
termination
  by (relation "measure (\<lambda>(gen, m, i, k, rid). 3 - i)") auto

text \<open>
  The part of \<open>writeFirstFrame\<close> after the loop, once the request id \<open>rid\<close> is chosen: the
  response is allocated and registered under \<open>rid\<close>, the frame is built and written; when
  the write returns an error, the response found under \<open>rid\<close> is closed and deleted from
  the map. \<open>None\<close>: the call does not return (a write that does not return, or an
  assignment into a nil map, which panics).
\<close>

definition writeFirstFrame_send ::
  "('cs, 's, 'n) env \<Rightarrow> Cmd \<Rightarrow> FrameFlag \<Rightarrow> byte list \<Rightarrow> 64 word \<Rightarrow> ('cs, 'n) serveconn
     \<Rightarrow> ((error + 64 word \<times> nat \<times> defaultFrameWriter) \<times> ('cs, 'n) serveconn) option" where
  "writeFirstFrame_send env c fl payload rid sc1 =
     (case respes sc1 of
        None \<Rightarrow> None
      | Some m \<Rightarrow>
          let a = next_response sc1;
              sc2 = sc1\<lparr>responses := (responses sc1)(a := new_response),
                        next_response := a + 1,
                        respes := Some (m(rid \<mapsto> a))\<rparr>;
              writer = WriteBytes (growslice env)
                         (StartWrite (growslice env) newFrameWriter rid c fl) payload
          in
          case EndWrite (growslice env) (writeFrame env) writer sc2 of
            None \<Rightarrow> None
          | Some (writer', None) \<Rightarrow> None
          | Some (writer', Some (None, sc3)) \<Rightarrow> Some (Inr (rid, a, writer'), sc3)
          | Some (writer', Some (Some err, sc3)) \<Rightarrow>
              (case respes sc3 of
                 None \<Rightarrow> Some (Inl err, sc3)
               | Some m3 \<Rightarrow>
                   (case m3 rid of
                      None \<Rightarrow> Some (Inl err, sc3)
                    | Some a3 \<Rightarrow>
                        Some (Inl err,
                          sc3\<lparr>responses := (responses sc3)(a3 := response_Close (responses sc3 a3)),
                              respes := Some (m3(rid := None))\<rparr>))))"

text \<open>
  \<open>writeFirstFrame\<close>. The result is the error, or the request id, the address of the
  response and the writer. \<open>None\<close>: the call does not return.
\<close>

definition writeFirstFrame ::
  "('cs, 's, 'n) env \<Rightarrow> Cmd \<Rightarrow> FrameFlag \<Rightarrow> byte list \<Rightarrow> ('cs, 'n) serveconn
     \<Rightarrow> ((error + 64 word \<times> nat \<times> defaultFrameWriter) \<times> ('cs, 'n) serveconn) option" where
  "writeFirstFrame env c fl payload sc =
     (if untrack sc \<noteq> 0 then Some (Inl ErrConnAlreadyClosed, sc)
      else
        let rid0 = PoorManUUID env (uuid_calls sc);
            m = (case respes sc of None \<Rightarrow> Map.empty | Some m \<Rightarrow> m)
        in
        case uuid_loop (PoorManUUID env) m 0 (uuid_calls sc + 1) rid0 of
          (suc, rid, k) \<Rightarrow>
            let sc1 = sc\<lparr>uuid_calls := k, respes := Some m\<rparr> in
            if \<not> suc then Some (Inl ErrNoNewUUID, sc1)
            else writeFirstFrame_send env c fl payload rid sc1)"

text \<open>\<open>Request\<close>: the request id and the response of \<open>writeFirstFrame\<close>, with \<open>NBFlag\<close> set.\<close>

definition Request ::
  "('cs, 's, 'n) env \<Rightarrow> Cmd \<Rightarrow> FrameFlag \<Rightarrow> byte list \<Rightarrow> ('cs, 'n) serveconn
     \<Rightarrow> ((error + 64 word \<times> nat) \<times> ('cs, 'n) serveconn) option" where
  "Request env c fl payload sc =
     (case writeFirstFrame env c (fl OR NBFlag env) payload sc of
        None \<Rightarrow> None
      | Some (Inl err, sc') \<Rightarrow> Some (Inl err, sc')
      | Some (Inr (rid, a, writer), sc') \<Rightarrow> Some (Inr (rid, a), sc'))"

subsection \<open>readFrames\<close>

text \<open>
  What the rest of the program does at the two \<open>select\<close> statements of one turn of the
  loop: whether a receiver takes the value offered on \<open>readFrameCh\<close>, whether the handler
  has called \<open>readMore\<close> (the gate), and whether the runtime picks the case of \<open>ctx.Done()\<close>
  when both cases of a \<open>select\<close> are ready.
\<close>

record sched =
  recv_ready :: bool
  gate_ready :: bool
  prefer_done :: bool

datatype selected = TookCase | TookDone | Blocked

definition select2 :: "bool \<Rightarrow> bool \<Rightarrow> bool \<Rightarrow> selected" where
  "select2 ready done pref =
     (if ready \<and> done then (if pref then TookDone else TookCase)
      else if ready then TookCase
      else if done then TookDone
      else Blocked)"

text \<open>The result of one turn of the loop: go on, or return from \<open>readFrames\<close>.\<close>

datatype ('cs, 'n) turn =
    Continue "('cs, 'n) serveconn"
  | Return "error option" "('cs, 'n) serveconn"

text \<open>
  The second half of a turn: the frame is sent on \<open>readFrameCh\<close>, without waiting for
  the handler when the frame is non-blocking and with the gate otherwise.
  \<open>waitThrottle\<close> is outside the source files and only delays the reader. \<open>None\<close>: the
  reader stays blocked.
\<close>

definition readFrames_dispatch ::
  "('cs, 's, 'n) env \<Rightarrow> sched \<Rightarrow> Frame \<Rightarrow> ('cs, 'n) serveconn \<Rightarrow> ('cs, 'n) turn option" where
  "readFrames_dispatch env ch req sc =
     (if IsNonBlock env (Flags req) then
        (case select2 (recv_ready ch) (ctx_done sc) (prefer_done ch) of
           Blocked \<Rightarrow> None
         | TookDone \<Rightarrow> Some (Return (Some CtxErr) sc)
         | TookCase \<Rightarrow>
             let sc1 = sc\<lparr>readFrameCh := readFrameCh sc @ [\<lparr>res_f = req, readMore = False\<rparr>]\<rparr> in
             if ctx_done sc1 then Some (Return (Some CtxErr) sc1) else Some (Continue sc1))
      else
        (case select2 (recv_ready ch) (ctx_done sc) (prefer_done ch) of
           Blocked \<Rightarrow> None
         | TookDone \<Rightarrow> Some (Return (Some CtxErr) sc)
         | TookCase \<Rightarrow>
             let sc1 = sc\<lparr>readFrameCh := readFrameCh sc @ [\<lparr>res_f = req, readMore = True\<rparr>]\<rparr> in
             (case select2 (gate_ready ch) (ctx_done sc1) (prefer_done ch) of
                Blocked \<Rightarrow> None
              | TookDone \<Rightarrow> Some (Return (Some CtxErr) sc1)
              | TookCase \<Rightarrow> Some (Continue sc1))))"

text \<open>
  One turn of the loop of \<open>readFrames\<close>: read a frame; on an error close the connection
  and return; hand a frame from the server with a pending response to that response;
  send any other frame on \<open>readFrameCh\<close>.
\<close>

definition readFrames_turn ::
  "('cs, 's, 'n) env \<Rightarrow> sched \<Rightarrow> ('cs, 'n) serveconn \<Rightarrow> ('cs, 'n) turn option" where
  "readFrames_turn env ch sc =
     (case ReadFrame env (rwc sc) (cs sc) of
        (Inl err, n', cs') \<Rightarrow>
          (case Close env (sc\<lparr>rwc := n', cs := cs'\<rparr>) of
             None \<Rightarrow> None
           | Some (cerr, sc1) \<Rightarrow> Some (Return (unwrapOpError err) sc1))
      | (Inr req, n', cs') \<Rightarrow>
          let sc1 = sc\<lparr>rwc := n', cs := cs'\<rparr> in
          if FromServer env req then
            (case respes sc1 of
               None \<Rightarrow> readFrames_dispatch env ch req sc1
             | Some m \<Rightarrow>
                 (case m (RequestID req) of
                    None \<Rightarrow> readFrames_dispatch env ch req sc1
                  | Some a \<Rightarrow>
                      Some (Continue
                        (sc1\<lparr>respes := Some (m(RequestID req := None)),
                             responses := (responses sc1)(a := SetResponse (responses sc1 a) req)\<rparr>))))
          else readFrames_dispatch env ch req sc1)"

text \<open>
  The loop, for as many turns as the list of \<open>sched\<close> is long (\<open>Continue\<close>: the loop is still
  running after them), and \<open>readFrames\<close> with what its deferred function counts on return.
\<close>

fun readFrames_loop ::
  "('cs, 's, 'n) env \<Rightarrow> sched list \<Rightarrow> ('cs, 'n) serveconn \<Rightarrow> ('cs, 'n) turn option" where
  "readFrames_loop env [] sc = Some (Continue sc)"
| "readFrames_loop env (ch # chs) sc =
     (case readFrames_turn env ch sc of
        None \<Rightarrow> None
      | Some (Return err sc') \<Rightarrow> Some (Return err sc')
      | Some (Continue sc') \<Rightarrow> readFrames_loop env chs sc')"

definition readFrames ::
  "('cs, 's, 'n) env \<Rightarrow> sched list \<Rightarrow> ('cs, 'n) serveconn \<Rightarrow> ('cs, 'n) turn option" where
  "readFrames env chs sc =
     (case readFrames_loop env chs sc of
        None \<Rightarrow> None
      | Some (Continue sc') \<Rightarrow> Some (Continue sc')
      | Some (Return err sc') \<Rightarrow>
          Some (Return err
            (if CounterMetric env
             then sc'\<lparr>metrics := metrics sc' @
                    [(''readFrames'',
                      if err \<noteq> None \<and> OverlayNetwork env
                      then Fixed errStrReadFramesForOverlayNetwork else Sprintf err)]\<rparr>
             else sc')))"

subsection \<open>Concurrent calls of Close\<close>

text \<open>
  Where a call of \<open>Close\<close> stands. The steps between these points are atomic: the
  compare-and-swap on \<open>untrack\<close> and the closing of \<open>untrackedCh\<close> inside
  \<open>Server.untrack\<close> (modelled from the spec, as \<open>server_untrack\<close> above, with the winner's
  two steps apart so that other calls can run in between), the receive from
  \<open>untrackedCh\<close>, \<open>rwc.Close()\<close>, \<open>cancelCtx()\<close>, the section of \<open>closeUntracked\<close> under the
  lock \<open>ci.l\<close>, and each call of a callback. \<open>Calling cbs\<close>: the callbacks \<open>cbs\<close> of the local
  slice \<open>closeNotify\<close> are still to be called. \<open>Done e\<close>: the call has returned \<open>e\<close>.
\<close>

datatype close_pc =
    AtUntrack
  | Untracking
  | Waiting
  | AtRwcClose
  | AtCancel
  | AtLock
  | Calling "nat list"
  | Done "error option"

text \<open>One step of one call; \<open>None\<close> when the call cannot move (it waits, or has returned).\<close>

fun close_thread_step ::
  "('cs, 's, 'n) env \<Rightarrow> ('cs, 'n) serveconn \<Rightarrow> close_pc \<Rightarrow> (('cs, 'n) serveconn \<times> close_pc) option" where
  "close_thread_step env sc AtUntrack =
     (if untrack sc = 0 then Some (sc\<lparr>untrack := 1\<rparr>, Untracking) else Some (sc, Waiting))"
| "close_thread_step env sc Untracking = Some (sc\<lparr>untrackedCh_closed := True\<rparr>, AtRwcClose)"
| "close_thread_step env sc Waiting =
     (if untrackedCh_closed sc then Some (sc, AtRwcClose) else None)"
| "close_thread_step env sc AtRwcClose =
     (case rwc_Close env (rwc sc) of
        (Some err, n') \<Rightarrow> Some (sc\<lparr>rwc := n'\<rparr>, Done (Some err))
      | (None, n') \<Rightarrow> Some (sc\<lparr>rwc := n'\<rparr>, AtCancel))"
| "close_thread_step env sc AtCancel = Some (sc\<lparr>ctx_done := True\<rparr>, AtLock)"
| "close_thread_step env sc AtLock =
     Some (sc\<lparr>closed := True, closeNotify := []\<rparr>, Calling (closeNotify sc))"
| "close_thread_step env sc (Calling []) = Some (sc, Done None)"
| "close_thread_step env sc (Calling (cb # cbs)) =
     Some (sc\<lparr>notified := notified sc @ [cb]\<rparr>, Calling cbs)"
| "close_thread_step env sc (Done e) = None"

text \<open>
  Any number of calls on one connection: the connection and where each call stands. A
  schedule names, step by step, the call that moves next; a call that cannot move, or a
  number that names no call, leaves everything as it is. Every interleaving of the calls
  is the run of some schedule.
\<close>

type_synonym ('cs, 'n) closing = "('cs, 'n) serveconn \<times> close_pc list"

fun close_sched_step ::
  "('cs, 's, 'n) env \<Rightarrow> nat \<Rightarrow> ('cs, 'n) closing \<Rightarrow> ('cs, 'n) closing" where
  "close_sched_step env i (sc, pcs) =
     (if i < length pcs then
        (case close_thread_step env sc (pcs ! i) of
           None \<Rightarrow> (sc, pcs)
         | Some (sc', pc') \<Rightarrow> (sc', pcs[i := pc']))
      else (sc, pcs))"

definition close_run ::
  "('cs, 's, 'n) env \<Rightarrow> nat list \<Rightarrow> ('cs, 'n) closing \<Rightarrow> ('cs, 'n) closing" where
  "close_run env schedule cfg = foldl (\<lambda>c i. close_sched_step env i c) cfg schedule"

text \<open>All calls have returned; a call has returned nil.\<close>

fun is_Done :: "close_pc \<Rightarrow> bool" where
  "is_Done (Done e) = True"
| "is_Done pc = False"

definition all_returned :: "close_pc list \<Rightarrow> bool" where
  "all_returned pcs = list_all is_Done pcs"


text \<open>The callbacks a call has taken from the list and not called yet.\<close>

fun to_call :: "close_pc \<Rightarrow> nat list" where
  "to_call (Calling cbs) = cbs"
| "to_call pc = []"

text \<open>The callbacks taken from the list by some call and not called yet, as a multiset.\<close>

definition pending_calls :: "close_pc list \<Rightarrow> nat multiset" where
  "pending_calls pcs = sum_list (map (\<lambda>pc. mset (to_call pc)) pcs)"

text \<open>A call is past the section under the lock.\<close>

fun past_lock :: "close_pc \<Rightarrow> bool" where
  "past_lock (Calling cbs) = True"
| "past_lock (Done None) = True"
| "past_lock pc = False"



text \<open>
  What \<open>rwc.Close()\<close> returned to a call that has closed the socket: nil for a call that
  went on after it, the error for a call that returned it. A call that has not closed
  the socket yet has no result. \<open>close_results\<close>: the results of all calls, as a multiset.
\<close>

fun close_result :: "close_pc \<Rightarrow> error option list" where
  "close_result AtCancel = [None]"
| "close_result AtLock = [None]"
| "close_result (Calling cbs) = [None]"
| "close_result (Done e) = [e]"
| "close_result pc = []"

definition close_results :: "close_pc list \<Rightarrow> error option multiset" where
  "close_results pcs = sum_list (map (\<lambda>pc. mset (close_result pc)) pcs)"

text \<open>What the calls that have returned have returned, in the order of the calls.\<close>

fun returned :: "close_pc \<Rightarrow> error option list" where
  "returned (Done e) = [e]"
| "returned pc = []"

definition returned_errors :: "close_pc list \<Rightarrow> error option list" where
  "returned_errors pcs = concat (map returned pcs)"

text \<open>
  The socket after \<open>k\<close> calls of its \<open>Close\<close> one after the other, and what these \<open>k\<close> calls
  return, in order.
\<close>

fun socket_after :: "('cs, 's, 'n) env \<Rightarrow> 'n \<Rightarrow> nat \<Rightarrow> 'n" where
  "socket_after env n 0 = n"
| "socket_after env n (Suc k) = snd (rwc_Close env (socket_after env n k))"

definition socket_closes :: "('cs, 's, 'n) env \<Rightarrow> 'n \<Rightarrow> nat \<Rightarrow> error option list" where
  "socket_closes env n k = map (\<lambda>j. fst (rwc_Close env (socket_after env n j))) [0..<k]"

text \<open>
  What holds of the socket in every configuration that calls of \<open>Close\<close> reach from the
  connection \<open>sc0\<close>: the socket has been closed once by each call that has a result, the
  results are those of that many calls of the socket's \<open>Close\<close> one after the other, and
  as long as none of them is nil the context and the mark \<open>closed\<close> are as in \<open>sc0\<close>.
\<close>

definition close_socket_inv ::
  "('cs, 's, 'n) env \<Rightarrow> ('cs, 'n) serveconn \<Rightarrow> ('cs, 'n) closing \<Rightarrow> bool" where
  "close_socket_inv env sc0 cfg =
     (case cfg of (sc, pcs) \<Rightarrow>
        rwc sc = socket_after env (rwc sc0) (size (close_results pcs))
      \<and> close_results pcs = mset (socket_closes env (rwc sc0) (size (close_results pcs)))
      \<and> (None \<notin># close_results pcs \<longrightarrow> ctx_done sc = ctx_done sc0 \<and> closed sc = closed sc0))"

subsection \<open>A concrete connection\<close>

text \<open>
  Concrete values for the parameters, used to evaluate the functions above on examples.
  The socket records the bytes written, the calls of \<open>Close\<close> and the frames still to be
  read; like a TCP connection it reports an error when used after it was closed. The
  stream table maps the id of a live stream to whether this side has closed it: a frame
  is admitted unless the stream is self-closed, and a frame with the end-of-stream or
  the reset bit closes it. The flag bits are those of this example only.
\<close>

record test_net =
  wire :: "byte list"
  close_calls :: nat
  inbox :: "(error + Frame) list"

definition test_env :: "(64 word \<rightharpoonup> bool, 64 word, test_net) env" where
  "test_env =
     \<lparr>growslice = grow_exact,
      IsRst = (\<lambda>fl. fl AND 4 \<noteq> 0),
      IsPush = (\<lambda>fl. fl AND 16 \<noteq> 0),
      IsNonBlock = (\<lambda>fl. fl AND 8 \<noteq> 0),
      FromServer = (\<lambda>req. Flags req AND 32 \<noteq> 0),
      NBFlag = 8,
      GetStream = (\<lambda>t rid fl. if t rid = None then None else Some rid),
      CreateOrGetStream = (\<lambda>t rid fl.
         case t rid of None \<Rightarrow> ((rid, False), t(rid \<mapsto> False)) | Some c \<Rightarrow> ((rid, True), t)),
      AddOutFrame = (\<lambda>s rid fl t.
         case t s of
           None \<Rightarrow> (False, t)
         | Some c \<Rightarrow> if c then (False, t) else (True, t(s \<mapsto> (fl AND 6 \<noteq> 0)))),
      bytesWriter_Write = (\<lambda>n bs.
         if close_calls n = 0 then (None, n\<lparr>wire := wire n @ bs\<rparr>)
         else (Some (OpError (Some (OtherErr 0))), n)),
      ReadFrame = (\<lambda>n t.
         case inbox n of
           [] \<Rightarrow> (Inl (OtherErr 1), n, t)
         | r # rs \<Rightarrow> (r, n\<lparr>inbox := rs\<rparr>, t)),
      rwc_Close = (\<lambda>n.
         (if close_calls n = 0 then None else Some (OpError (Some (OtherErr 0))),
          n\<lparr>close_calls := Suc (close_calls n)\<rparr>)),
      PoorManUUID = (\<lambda>k. of_nat k),
      CounterMetric = False,
      OverlayNetwork = False\<rparr>"

definition test_conn :: "(64 word \<rightharpoonup> bool, test_net) serveconn" where
  "test_conn =
     \<lparr>ctx_done = False, cs = Map.empty,
      rwc = \<lparr>wire = [], close_calls = 0, inbox = []\<rparr>,
      untrack = 0, untrackedCh_closed = False, closed = False, ci_id = [],
      closeNotify = [], notified = [], respes = None,
      responses = (\<lambda>a. new_response), next_response = 0,
      readFrameCh = [], metrics = [], uuid_calls = 0\<rparr>"

text \<open>A connection whose stream 7 is self-closed, and one whose context is cancelled.\<close>

definition closed7_conn :: "(64 word \<rightharpoonup> bool, test_net) serveconn" where
  "closed7_conn = test_conn\<lparr>cs := [7 \<mapsto> True]\<rparr>"

definition cancelled_conn :: "(64 word \<rightharpoonup> bool, test_net) serveconn" where
  "cancelled_conn = test_conn\<lparr>ctx_done := True\<rparr>"

definition cancelled7_conn :: "(64 word \<rightharpoonup> bool, test_net) serveconn" where
  "cancelled7_conn = closed7_conn\<lparr>ctx_done := True\<rparr>"

text \<open>A reset frame, a data frame and a push frame for request 7, ready to be written.\<close>

definition rst_writer :: defaultFrameWriter where
  "rst_writer = StartWrite grow_exact newFrameWriter 7 0 4"

definition data_writer :: defaultFrameWriter where
  "data_writer = StartWrite grow_exact newFrameWriter 7 1 0"

definition push_writer :: defaultFrameWriter where
  "push_writer = StartWrite grow_exact newFrameWriter 7 1 16"

text \<open>The map of pending responses of a connection: empty when \<open>respes\<close> is nil.\<close>

definition pending :: "('cs, 'n) serveconn \<Rightarrow> 64 word \<rightharpoonup> nat" where
  "pending sc = (case respes sc of None \<Rightarrow> Map.empty | Some m \<Rightarrow> m)"

text \<open>
  A connection with responses pending under the ids 0, 1 and 2, the first three
  results of \<open>PoorManUUID\<close> in the example.
\<close>

definition crowded_conn :: "(64 word \<rightharpoonup> bool, test_net) serveconn" where
  "crowded_conn = test_conn\<lparr>respes := Some [0 \<mapsto> 0, 1 \<mapsto> 1, 2 \<mapsto> 2], next_response := 3\<rparr>"

text \<open>
  A connection with responses pending under the ids 0 and 2 only, and the same connection
  with a socket that was closed before, on which every write fails.
\<close>

definition sparse_conn :: "(64 word \<rightharpoonup> bool, test_net) serveconn" where
  "sparse_conn = test_conn\<lparr>respes := Some [0 \<mapsto> 0, 2 \<mapsto> 2], next_response := 3\<rparr>"

definition sparse_dead_conn :: "(64 word \<rightharpoonup> bool, test_net) serveconn" where
  "sparse_dead_conn = sparse_conn\<lparr>rwc := \<lparr>wire = [], close_calls = 1, inbox = []\<rparr>\<rparr>"

text \<open>
  A reply from the peer to request 5, a connection that waits for it (the response at
  address 0 is pending under 5 and the reply is the next frame on the socket), and a
  scheduling in which nothing else is ready.
\<close>

definition reply_frame :: Frame where
  "reply_frame = \<lparr>RequestID = 5, Flags = 32, Cmd = 0x21, Payload = [0x6F, 0x6B]\<rparr>"

definition waiting_conn :: "(64 word \<rightharpoonup> bool, test_net) serveconn" where
  "waiting_conn =
     test_conn\<lparr>rwc := \<lparr>wire = [], close_calls = 0, inbox = [Inr reply_frame]\<rparr>,
               respes := Some [5 \<mapsto> 0], next_response := 1\<rparr>"

definition idle_sched :: sched where
  "idle_sched = \<lparr>recv_ready = False, gate_ready = False, prefer_done = False\<rparr>"

text \<open>
  A connection with the callbacks 1 and 2 registered; the same after one and after two
  calls of \<open>Close\<close>; and a schedule that interleaves two calls.
\<close>

definition notify_conn :: "(64 word \<rightharpoonup> bool, test_net) serveconn" where
  "notify_conn = NotifyWhenClose 2 (NotifyWhenClose 1 test_conn)"




text \<open>
  The example with a socket whose \<open>Close\<close> always fails, and the connection with the
  callbacks 1 and 2 after a call of \<open>Close\<close> on that socket.
\<close>

definition broken_env :: "(64 word \<rightharpoonup> bool, 64 word, test_net) env" where
  "broken_env =
     test_env\<lparr>rwc_Close := (\<lambda>n. (Some (OtherErr 2), n\<lparr>close_calls := Suc (close_calls n)\<rparr>))\<rparr>"

definition unclosed_conn :: "(64 word \<rightharpoonup> bool, test_net) serveconn" where
  "unclosed_conn =
     notify_conn\<lparr>rwc := \<lparr>wire = [], close_calls = 1, inbox = []\<rparr>,
                 untrack := 1, untrackedCh_closed := True\<rparr>"

section \<open>Bytes of an integer\<close>

lemma unat_byte_shr: "unat (byte_shr v k) = (unat v div 2 ^ k) mod 256"
proof -
  have "unat (byte_shr v k) = take_bit 8 (drop_bit k (unat v))"
    by (simp add: byte_shr_def unsigned_ucast_eq unat_drop_bit_eq)
  then show ?thesis by (simp add: take_bit_eq_mod drop_bit_eq_div)
qed

lemma unat_byte_shr_int: "unat (byte_shr_int v k) = nat ((v div 2 ^ k) mod 256)"
  by (simp add: byte_shr_int_def unsigned_of_int take_bit_eq_mod drop_bit_eq_div)

lemma unat_byte_shr_nat: "unat (byte_shr_int (int n) k) = (n div 2 ^ k) mod 256"
proof -
  have "(int n div 2 ^ k) mod 256 = int ((n div 2 ^ k) mod 256)"
    by (simp add: zdiv_int zmod_int)
  then show ?thesis by (simp add: unat_byte_shr_int)
qed

lemma mod_split8: "x mod 2 ^ (k + 8) = 2 ^ k * (x div 2 ^ k mod 256) + x mod 2 ^ k" for x :: nat
  by (simp add: power_add mod_mult2_eq)

lemma be2_nat: "(x div 2^8 mod 256) * 256 + x mod 256 = x mod 2^16" for x :: nat
  using mod_split8 [of x 8] by simp

lemma be3_nat: "((x div 2^16 mod 256) * 256 + x div 2^8 mod 256) * 256 + x mod 256 = x mod 2^24" for x :: nat
  using mod_split8 [of x 16] be2_nat [of x] by simp

lemma be4_nat: "(((x div 2^24 mod 256) * 256 + x div 2^16 mod 256) * 256 + x div 2^8 mod 256) * 256 + x mod 256 = x mod 2^32" for x :: nat
  using mod_split8 [of x 24] be3_nat [of x] by simp

lemma be5_nat: "((((x div 2^32 mod 256) * 256 + x div 2^24 mod 256) * 256 + x div 2^16 mod 256) * 256 + x div 2^8 mod 256) * 256 + x mod 256 = x mod 2^40" for x :: nat
  using mod_split8 [of x 32] be4_nat [of x] by simp

lemma be6_nat: "(((((x div 2^40 mod 256) * 256 + x div 2^32 mod 256) * 256 + x div 2^24 mod 256) * 256 + x div 2^16 mod 256) * 256 + x div 2^8 mod 256) * 256 + x mod 256 = x mod 2^48" for x :: nat
  using mod_split8 [of x 40] be5_nat [of x] by simp

lemma be7_nat: "((((((x div 2^48 mod 256) * 256 + x div 2^40 mod 256) * 256 + x div 2^32 mod 256) * 256 + x div 2^24 mod 256) * 256 + x div 2^16 mod 256) * 256 + x div 2^8 mod 256) * 256 + x mod 256 = x mod 2^56" for x :: nat
  using mod_split8 [of x 48] be6_nat [of x] by simp

lemma be8_nat: "(((((((x div 2^56 mod 256) * 256 + x div 2^48 mod 256) * 256 + x div 2^40 mod 256) * 256 + x div 2^32 mod 256) * 256 + x div 2^24 mod 256) * 256 + x div 2^16 mod 256) * 256 + x div 2^8 mod 256) * 256 + x mod 256 = x mod 2^64" for x :: nat
  using mod_split8 [of x 56] be7_nat [of x] by simp

lemma be_value3: "be_value [a, b, c] = (unat a * 256 + unat b) * 256 + unat c"
  by (simp add: be_value_def)

lemma be_value4: "be_value [a, b, c, d] = ((unat a * 256 + unat b) * 256 + unat c) * 256 + unat d"
  by (simp add: be_value_def)

lemma be_value8:
  "be_value [a, b, c, d, e, f, g, h] =
     ((((((unat a * 256 + unat b) * 256 + unat c) * 256 + unat d) * 256 + unat e) * 256
        + unat f) * 256 + unat g) * 256 + unat h"
  by (simp add: be_value_def)

lemma be_value_cmd:
  "be_value [byte_shr c 16, byte_shr c 8, byte_shr c 0] = unat c mod 2 ^ 24"
  unfolding be_value3 unat_byte_shr by (simp only: be3_nat [symmetric] power_0 div_by_1)

lemma be_value_u64:
  "be_value [byte_shr v 56, byte_shr v 48, byte_shr v 40, byte_shr v 32,
             byte_shr v 24, byte_shr v 16, byte_shr v 8, byte_shr v 0] = unat (v :: 64 word)"
proof -
  have "unat v mod 2 ^ 64 = unat v"
    using unsigned_less [of v, where 'a = nat] by simp
  moreover have "be_value [byte_shr v 56, byte_shr v 48, byte_shr v 40, byte_shr v 32,
             byte_shr v 24, byte_shr v 16, byte_shr v 8, byte_shr v 0] = unat v mod 2 ^ 64"
    unfolding be_value8 unat_byte_shr by (simp only: be8_nat [symmetric] power_0 div_by_1)
  ultimately show ?thesis by simp
qed

lemma be_value_length:
  "be_value [byte_shr_int (int n) 24, byte_shr_int (int n) 16,
             byte_shr_int (int n) 8, byte_shr_int (int n) 0] = n mod 2 ^ 32"
  unfolding be_value4 unat_byte_shr_nat by (simp only: be4_nat [symmetric] power_0 div_by_1)

section \<open>Slices\<close>

lemma go_append_contents:
  "wf_slice s \<Longrightarrow> contents (fst (go_append g s xs)) = contents s @ xs"
  by (simp add: go_append_def contents_def wf_slice_def cap_def Let_def)

lemma go_append_slen: "slen (fst (go_append g s xs)) = slen s + length xs"
  by (simp add: go_append_def Let_def)

lemma go_append_wf: "wf_slice s \<Longrightarrow> wf_slice (fst (go_append g s xs))"
  by (simp add: go_append_def wf_slice_def cap_def Let_def)

lemma contents_length: "wf_slice s \<Longrightarrow> length (contents s) = slen s"
  by (simp add: contents_def wf_slice_def cap_def)

section \<open>Writer\<close>

lemma StartWrite_contents:
  "contents (wbuf (StartWrite g dfw rid c fl)) =
     [0, 0, 0, 0,
      byte_shr rid 56, byte_shr rid 48, byte_shr rid 40, byte_shr rid 32,
      byte_shr rid 24, byte_shr rid 16, byte_shr rid 8, byte_shr rid 0,
      fl,
      byte_shr c 16, byte_shr c 8, byte_shr c 0]"
  by (simp add: StartWrite_def go_append_def contents_def Let_def cap_def)

lemma StartWrite_wf: "wf_slice (wbuf (StartWrite g dfw rid c fl))"
proof -
  have "wf_slice ((wbuf dfw)\<lparr>slen := 0\<rparr>)" by (simp add: wf_slice_def)
  then have "wf_slice (fst (go_append g ((wbuf dfw)\<lparr>slen := 0\<rparr>) xs))" for xs
    by (rule go_append_wf)
  then show ?thesis by (simp add: StartWrite_def Let_def)
qed

lemma StartWrite_slen: "slen (wbuf (StartWrite g dfw rid c fl)) = 16"
  by (simp add: StartWrite_def Let_def go_append_slen)

lemma StartWrite_fields:
  "requestID (StartWrite g dfw rid c fl) = rid"
  "cmd (StartWrite g dfw rid c fl) = c"
  "flags (StartWrite g dfw rid c fl) = fl"
  by (simp_all add: StartWrite_def Let_def)

lemma write_op_eq: "write_op g dfw p = dfw\<lparr>wbuf := fst (go_append g (wbuf dfw) (op_bytes p))\<rparr>"
  by (cases p)
    (simp_all add: WriteUint8_def WriteUint16_def WriteUint32_def WriteUint64_def WriteBytes_def)

lemma write_ops_wf: "wf_slice (wbuf dfw) \<Longrightarrow> wf_slice (wbuf (write_ops g dfw ops))"
  unfolding write_ops_def
  by (induction ops arbitrary: dfw) (simp_all add: write_op_eq go_append_wf)

lemma write_ops_contents:
  "wf_slice (wbuf dfw) \<Longrightarrow>
     contents (wbuf (write_ops g dfw ops)) = contents (wbuf dfw) @ concat (map op_bytes ops)"
  unfolding write_ops_def
  by (induction ops arbitrary: dfw) (simp_all add: write_op_eq go_append_wf go_append_contents)

lemma write_ops_fields:
  "requestID (write_ops g dfw ops) = requestID dfw"
  "cmd (write_ops g dfw ops) = cmd dfw"
  "flags (write_ops g dfw ops) = flags dfw"
  unfolding write_ops_def
  by (induction ops arbitrary: dfw, simp_all add: write_op_eq)+

lemma started_write_ops: "started (write_ops g (StartWrite g d0 rid c fl) ops)"
proof -
  let ?d = "write_ops g (StartWrite g d0 rid c fl) ops"
  have wf: "wf_slice (wbuf ?d)" by (simp add: write_ops_wf StartWrite_wf)
  have "length (contents (wbuf ?d)) = 16 + length (concat (map op_bytes ops))"
    by (simp add: write_ops_contents StartWrite_wf StartWrite_contents)
  with wf show ?thesis by (simp add: started_def contents_length)
qed

lemma started_flags [simp]: "started (dfw\<lparr>flags := fl\<rparr>) = started dfw"
  by (simp add: started_def)

lemma append_discard_shared:
  "m = n + length xs \<Longrightarrow> m \<le> cap s \<Longrightarrow>
     append_discard g s n xs =
       Some (s\<lparr>backing := take n (backing s) @ xs @ drop m (backing s)\<rparr>)"
  by (simp add: append_discard_def slice_to_def go_append_def Let_def cap_def)

lemma EndWrite_patch_started:
  assumes "started dfw"
  shows "EndWrite_patch g dfw =
           Some (dfw\<lparr>wbuf := (wbuf dfw)\<lparr>backing :=
             length_bytes (slen (wbuf dfw)) @ take 8 (drop 4 (backing (wbuf dfw)))
               @ [flags dfw] @ drop 13 (backing (wbuf dfw))\<rparr>\<rparr>)"
proof -
  let ?b = "wbuf dfw"
  let ?L = "length_bytes (slen ?b)"
  have c: "16 \<le> cap ?b" using assms by (simp add: started_def wf_slice_def)
  have 1: "append_discard g ?b 0 ?L = Some (?b\<lparr>backing := ?L @ drop 4 (backing ?b)\<rparr>)"
    using c append_discard_shared [of 4 0 ?L ?b g] by (simp add: length_bytes_def)
  let ?b1 = "?b\<lparr>backing := ?L @ drop 4 (backing ?b)\<rparr>"
  have c1: "13 \<le> cap ?b1"
    using c by (simp add: cap_def length_bytes_def)
  have 2: "append_discard g ?b1 12 [flags dfw] =
             Some (?b1\<lparr>backing := take 12 (backing ?b1) @ [flags dfw] @ drop 13 (backing ?b1)\<rparr>)"
    using append_discard_shared [OF _ c1, of 12 "[flags dfw]" g] by simp
  have 3: "take 12 (backing ?b1) = ?L @ take 8 (drop 4 (backing ?b))"
    by (simp add: length_bytes_def)
  have 4: "drop 13 (backing ?b1) = drop 13 (backing ?b)"
    by (simp add: length_bytes_def)
  have "EndWrite_patch g dfw =
          (case append_discard g ?b 0 ?L of
             None \<Rightarrow> None
           | Some b1 \<Rightarrow>
               (case append_discard g b1 12 [ucast (flags dfw)] of
                  None \<Rightarrow> None
                | Some b2 \<Rightarrow> Some (dfw\<lparr>wbuf := b2\<rparr>)))"
    by (simp add: EndWrite_patch_def Let_def length_bytes_def)
  also have "\<dots> = Some (dfw\<lparr>wbuf := ?b1\<lparr>backing := take 12 (backing ?b1) @ [flags dfw] @ drop 13 (backing ?b1)\<rparr>\<rparr>)"
    using 1 2 by simp
  finally show ?thesis by (simp only: 3 4) simp
qed

lemma EndWrite_started:
  assumes "started dfw"
  shows "\<exists>d'. EndWrite g fbw dfw conn = Some (d', fbw d' conn)
           \<and> wf_slice (wbuf d') \<and> slen (wbuf d') = slen (wbuf dfw)
           \<and> take 4 (contents (wbuf d')) = length_bytes (slen (wbuf dfw))
           \<and> contents (wbuf d') ! 12 = flags dfw
           \<and> flags d' = flags dfw"
proof -
  let ?d' = "dfw\<lparr>wbuf := (wbuf dfw)\<lparr>backing :=
             length_bytes (slen (wbuf dfw)) @ take 8 (drop 4 (backing (wbuf dfw)))
               @ [flags dfw] @ drop 13 (backing (wbuf dfw))\<rparr>\<rparr>"
  have c: "16 \<le> slen (wbuf dfw)" "slen (wbuf dfw) \<le> length (backing (wbuf dfw))"
    using assms by (simp_all add: started_def wf_slice_def cap_def)
  have "EndWrite g fbw dfw conn = Some (?d', fbw ?d' conn)"
    by (simp add: EndWrite_def EndWrite_patch_started [OF assms])
  moreover have "wf_slice (wbuf ?d')"
    using c by (simp add: wf_slice_def cap_def length_bytes_def)
  moreover have "take 4 (contents (wbuf ?d')) = length_bytes (slen (wbuf dfw))"
    using c by (simp add: contents_def length_bytes_def)
  moreover have "contents (wbuf ?d') ! 12 = flags dfw"
    using c by (simp add: contents_def length_bytes_def nth_append)
  ultimately show ?thesis by (intro exI [of _ ?d']) simp
qed

text \<open>
  Claim C1, as amended. After \<open>StartWrite\<close> and any sequence of payload appends, \<open>EndWrite\<close>
  returns, the buffer holds at least 16 bytes, and its first four bytes read big-endian
  are \<open>len(buffer) - 4\<close> modulo \<open>2 ^ 32\<close>: the length of everything after the length field
  whenever that length is below \<open>2 ^ 32\<close>.
\<close>

theorem EndWrite_length_field:
  "\<exists>d'. EndWrite g fbw (write_ops g (StartWrite g d0 rid c fl) ops) conn = Some (d', fbw d' conn)
     \<and> 16 \<le> length (contents (wbuf d'))
     \<and> be_value (take 4 (contents (wbuf d'))) = (length (contents (wbuf d')) - 4) mod 2 ^ 32"
proof -
  let ?d = "write_ops g (StartWrite g d0 rid c fl) ops"
  have st: "started ?d" by (rule started_write_ops)
  then have n: "16 \<le> slen (wbuf ?d)" by (simp add: started_def)
  from EndWrite_started [OF st, of g fbw conn] obtain d' where
    d': "EndWrite g fbw ?d conn = Some (d', fbw d' conn)" "wf_slice (wbuf d')"
      "slen (wbuf d') = slen (wbuf ?d)" "take 4 (contents (wbuf d')) = length_bytes (slen (wbuf ?d))"
    by blast
  have len: "length (contents (wbuf d')) = slen (wbuf ?d)"
    using d' by (simp add: contents_length)
  have "int (slen (wbuf ?d)) - 4 = int (slen (wbuf ?d) - 4)"
    using n by simp
  then have "be_value (length_bytes (slen (wbuf ?d))) = (slen (wbuf ?d) - 4) mod 2 ^ 32"
    by (simp only: length_bytes_def be_value_length)
  with d' len n show ?thesis by (intro exI [of _ d']) simp
qed

lemma huge_frame_started: "started huge_frame" and huge_frame_slen: "slen (wbuf huge_frame) = 2 ^ 32 + 16"
proof -
  have eq: "huge_frame = write_ops grow_exact (StartWrite grow_exact newFrameWriter 0 0 0) [Bytes (replicate (2 ^ 32) 0)]"
    by (simp add: huge_frame_def write_ops_def)
  show st: "started huge_frame" unfolding eq by (rule started_write_ops)
  have "length (contents (wbuf huge_frame)) = 2 ^ 32 + 16"
    unfolding eq by (simp add: write_ops_contents StartWrite_wf StartWrite_contents)
  then show "slen (wbuf huge_frame) = 2 ^ 32 + 16"
    using st by (simp add: started_def contents_length)
qed

text \<open>
  Claim C1 as stated fails on a frame whose payload has \<open>2 ^ 32\<close> bytes: the buffer holds
  \<open>2 ^ 32 + 16\<close> bytes, \<open>len(buffer) - 4\<close> is 4294967308, and the length field reads 12.
\<close>

theorem EndWrite_length_field_counterexample:
  "EndWrite grow_exact fbw_nop huge_frame () \<noteq> None
   \<and> be_value (take 4 (contents (wbuf (fst (the (EndWrite grow_exact fbw_nop huge_frame ())))))) = 12
   \<and> length (contents (wbuf (fst (the (EndWrite grow_exact fbw_nop huge_frame ()))))) - 4 = 4294967308"
proof -
  from EndWrite_started [OF huge_frame_started, of grow_exact fbw_nop "()"] obtain d' where
    d': "EndWrite grow_exact fbw_nop huge_frame () = Some (d', fbw_nop d' ())" "wf_slice (wbuf d')"
      "slen (wbuf d') = slen (wbuf huge_frame)"
      "take 4 (contents (wbuf d')) = length_bytes (slen (wbuf huge_frame))"
    by blast
  have "int (slen (wbuf huge_frame)) - 4 = int (2 ^ 32 + 12)"
    by (simp add: huge_frame_slen)
  then have "be_value (length_bytes (slen (wbuf huge_frame))) = (2 ^ 32 + 12) mod 2 ^ 32"
    by (simp only: length_bytes_def be_value_length)
  then have "be_value (take 4 (contents (wbuf d'))) = 12"
    using d' by simp
  moreover have "length (contents (wbuf d')) - 4 = 4294967308"
    using d' by (simp add: contents_length huge_frame_slen)
  ultimately show ?thesis using d'(1) by simp
qed

text \<open>
  Claim C7. Whatever the writer held before, after \<open>StartWrite\<close> the buffer holds exactly 16
  bytes: four zero bytes, eight bytes that read big-endian are the request id, the flag
  byte, and three bytes that read big-endian are the command (its low 24 bits, the width
  of the field).
\<close>

theorem StartWrite_preamble:
  "length (contents (wbuf (StartWrite g dfw rid c fl))) = 16
   \<and> take 4 (contents (wbuf (StartWrite g dfw rid c fl))) = [0, 0, 0, 0]
   \<and> be_value (take 8 (drop 4 (contents (wbuf (StartWrite g dfw rid c fl))))) = unat rid
   \<and> contents (wbuf (StartWrite g dfw rid c fl)) ! 12 = fl
   \<and> be_value (drop 13 (contents (wbuf (StartWrite g dfw rid c fl)))) = unat c mod 2 ^ 24"
  by (simp add: StartWrite_contents be_value_u64 be_value_cmd)

lemma byte_shr_low24:
  "k + 8 \<le> 24 \<Longrightarrow> byte_shr (c AND 0xFFFFFF) k = byte_shr (c :: 32 word) k"
proof -
  assume k: "k + 8 \<le> 24"
  have m: "(0xFFFFFF :: 32 word) = mask 24" by (simp add: mask_eq_exp_minus_1)
  show ?thesis
    unfolding byte_shr_def m
    by (rule bit_word_eqI) (use k in \<open>auto simp add: bit_simps\<close>)
qed

text \<open>
  Claim C10. The command field is the three bytes at offsets 13 to 15; read big-endian they
  are \<open>cmd mod 2 ^ 24\<close>, and the buffer is the same as for the command with its high bits
  cleared: the bits above the low 24 are discarded.
\<close>

theorem StartWrite_cmd_low24:
  "length (drop 13 (contents (wbuf (StartWrite g dfw rid c fl)))) = 3
   \<and> be_value (drop 13 (contents (wbuf (StartWrite g dfw rid c fl)))) = unat c mod 2 ^ 24
   \<and> contents (wbuf (StartWrite g dfw rid c fl))
       = contents (wbuf (StartWrite g dfw rid (c AND 0xFFFFFF) fl))"
  by (simp add: StartWrite_contents be_value_cmd byte_shr_low24)

text \<open>
  Claim C8. On a started frame whose flags were changed to any \<open>fl'\<close> after \<open>StartWrite\<close>,
  \<open>EndWrite\<close> returns and the byte at offset 12 is \<open>fl'\<close>. \<open>StreamEndWrite(true)\<close> hands
  \<open>writeFrame\<close> a writer whose flags and whose byte at offset 12 are \<open>fl'\<close> with the
  \<open>EndStream\<close> bits set; \<open>StreamEndWrite(false)\<close> is \<open>EndWrite\<close>, on every writer.
\<close>

theorem EndWrite_flag_byte:
  "(\<exists>d'. EndWrite g fbw ((write_ops g (StartWrite g d0 rid c fl) ops)\<lparr>flags := fl'\<rparr>) conn
            = Some (d', fbw d' conn)
         \<and> contents (wbuf d') ! 12 = fl')
   \<and> (\<exists>d'. StreamEndWrite g endflag fbw ((write_ops g (StartWrite g d0 rid c fl) ops)\<lparr>flags := fl'\<rparr>)
              True conn = Some (d', fbw d' conn)
         \<and> flags d' = fl' OR endflag
         \<and> contents (wbuf d') ! 12 = fl' OR endflag
         \<and> (contents (wbuf d') ! 12) AND endflag = endflag)
   \<and> StreamEndWrite g endflag fbw dfw False conn = EndWrite g fbw dfw conn"
proof -
  let ?d = "write_ops g (StartWrite g d0 rid c fl) ops"
  have st: "started (?d\<lparr>flags := x\<rparr>)" for x
    by (simp add: started_write_ops)
  have 1: "\<exists>d'. EndWrite g fbw (?d\<lparr>flags := fl'\<rparr>) conn = Some (d', fbw d' conn)
         \<and> contents (wbuf d') ! 12 = fl'"
    using EndWrite_started [OF st, of g fbw fl' conn] by auto
  have e: "(fl' OR endflag) AND endflag = endflag"
    by (rule bit_word_eqI) (auto simp add: bit_simps)
  have 2: "\<exists>d'. StreamEndWrite g endflag fbw (?d\<lparr>flags := fl'\<rparr>) True conn = Some (d', fbw d' conn)
         \<and> flags d' = fl' OR endflag
         \<and> contents (wbuf d') ! 12 = fl' OR endflag
         \<and> (contents (wbuf d') ! 12) AND endflag = endflag"
    using EndWrite_started [OF st, of g fbw "fl' OR endflag" conn] e
    by (auto simp add: StreamEndWrite_def ToEndStream_def)
  have 3: "StreamEndWrite g endflag fbw dfw False conn = EndWrite g fbw dfw conn"
    by (simp add: StreamEndWrite_def)
  from 1 2 3 show ?thesis by blast
qed

lemma append_discard_frame:
  assumes "append_discard g s n xs = Some s'"
  shows "slen s' = slen s" "length (backing s') = length (backing s)"
    "\<And>i. i < length (backing s) \<Longrightarrow> i < n \<or> n + length xs \<le> i \<Longrightarrow> backing s' ! i = backing s ! i"
  using assms
  by (auto simp add: append_discard_def slice_to_def go_append_def Let_def cap_def nth_append
      split: if_splits)

text \<open>
  Claim C9. When \<open>EndWrite\<close> returns, the buffer has the length and the capacity it had,
  every byte of the backing array (so every byte of the buffer) at an index other than
  0, 1, 2, 3 and 12 is unchanged, and the fields \<open>requestID\<close>, \<open>cmd\<close> and \<open>flags\<close> are
  unchanged.
\<close>

theorem EndWrite_frame:
  assumes "EndWrite g fbw dfw conn = Some (dfw', r)"
  shows "slen (wbuf dfw') = slen (wbuf dfw)
    \<and> length (contents (wbuf dfw')) = length (contents (wbuf dfw))
    \<and> length (backing (wbuf dfw')) = length (backing (wbuf dfw))
    \<and> (\<forall>i < length (backing (wbuf dfw)). i \<notin> {0, 1, 2, 3, 12} \<longrightarrow>
          backing (wbuf dfw') ! i = backing (wbuf dfw) ! i)
    \<and> (\<forall>i < length (contents (wbuf dfw)). i \<notin> {0, 1, 2, 3, 12} \<longrightarrow>
          contents (wbuf dfw') ! i = contents (wbuf dfw) ! i)
    \<and> requestID dfw' = requestID dfw \<and> cmd dfw' = cmd dfw \<and> flags dfw' = flags dfw"
proof -
  let ?L = "[byte_shr_int (int (slen (wbuf dfw)) - 4) 24, byte_shr_int (int (slen (wbuf dfw)) - 4) 16,
             byte_shr_int (int (slen (wbuf dfw)) - 4) 8, byte_shr_int (int (slen (wbuf dfw)) - 4) 0]"
  from assms obtain b1 b2 where
    b1: "append_discard g (wbuf dfw) 0 ?L = Some b1" and
    b2: "append_discard g b1 12 [ucast (flags dfw)] = Some b2" and
    d': "dfw' = dfw\<lparr>wbuf := b2\<rparr>"
    by (auto simp add: EndWrite_def EndWrite_patch_def Let_def split: option.splits)
  note f1 = append_discard_frame [OF b1] and f2 = append_discard_frame [OF b2]
  have len: "slen b2 = slen (wbuf dfw)" "length (backing b2) = length (backing (wbuf dfw))"
    using f1(1,2) f2(1,2) by simp_all
  have nth: "backing b2 ! i = backing (wbuf dfw) ! i"
    if "i < length (backing (wbuf dfw))" "i \<notin> {0, 1, 2, 3, 12}" for i
  proof -
    have "backing b2 ! i = backing b1 ! i"
      using that f1(2) by (intro f2(3)) auto
    also have "\<dots> = backing (wbuf dfw) ! i"
      using that by (intro f1(3)) auto
    finally show ?thesis .
  qed
  have cnth: "contents b2 ! i = contents (wbuf dfw) ! i"
    if "i < length (contents (wbuf dfw))" "i \<notin> {0, 1, 2, 3, 12}" for i
    using that nth [of i] len by (simp add: contents_def)
  show ?thesis
    using len nth cnth by (simp add: d' contents_def)
qed

lemma sample_frame_EndWrite:
  "EndWrite grow_exact fbw_nop sample_frame () = Some (sample_frame_ended, ())"
  by (simp add: sample_frame_def sample_frame_ended_def EndWrite_def EndWrite_patch_def
      append_discard_def slice_to_def go_append_def WriteBytes_def StartWrite_def
      newFrameWriter_def nil_slice_def grow_exact_def fbw_nop_def byte_shr_def byte_shr_int_def
      cap_def Let_def)

text \<open>
  The hypothesis of the theorem for C9 holds on a small frame whose flags were changed
  after \<open>StartWrite\<close>: only the length field and the flag byte differ.
\<close>

theorem EndWrite_frame_witness:
  "EndWrite grow_exact fbw_nop sample_frame () = Some (sample_frame_ended, ())
   \<and> slen (wbuf sample_frame_ended) = slen (wbuf sample_frame)
   \<and> length (backing (wbuf sample_frame_ended)) = length (backing (wbuf sample_frame))
   \<and> take 4 (contents (wbuf sample_frame)) = [0, 0, 0, 0]
   \<and> take 4 (contents (wbuf sample_frame_ended)) = [0, 0, 0, 14]
   \<and> contents (wbuf sample_frame) ! 12 = 1
   \<and> contents (wbuf sample_frame_ended) ! 12 = 3
   \<and> contents (wbuf sample_frame_ended) ! 4 = contents (wbuf sample_frame) ! 4
   \<and> contents (wbuf sample_frame_ended) ! 11 = contents (wbuf sample_frame) ! 11
   \<and> contents (wbuf sample_frame_ended) ! 13 = contents (wbuf sample_frame) ! 13
   \<and> contents (wbuf sample_frame_ended) ! 17 = contents (wbuf sample_frame) ! 17
   \<and> requestID sample_frame_ended = requestID sample_frame
   \<and> cmd sample_frame_ended = cmd sample_frame
   \<and> flags sample_frame_ended = flags sample_frame"
proof -
  have b: "contents (wbuf sample_frame) = [0, 0, 0, 0, 0, 0, 0, 0, 0, 0, 0, 7, 1, 0, 0, 9, 170, 187]"
    by (simp add: sample_frame_def WriteBytes_def StartWrite_def go_append_def newFrameWriter_def
        nil_slice_def grow_exact_def byte_shr_def cap_def contents_def Let_def)
  have e: "contents (wbuf sample_frame_ended) = [0, 0, 0, 14, 0, 0, 0, 0, 0, 0, 0, 7, 3, 0, 0, 9, 170, 187]"
    by (simp add: sample_frame_ended_def contents_def)
  show ?thesis
    using sample_frame_EndWrite EndWrite_frame [OF sample_frame_EndWrite]
    by (simp add: b e)
qed

section \<open>The connection: writeFrame\<close>









lemma test_writers [simp]:
  "flags rst_writer = 4" "requestID rst_writer = 7"
  "flags data_writer = 0" "requestID data_writer = 7"
  "flags push_writer = 16" "requestID push_writer = 7"
  by (simp_all add: rst_writer_def data_writer_def push_writer_def StartWrite_def Let_def)

lemma test_env_sel [simp]:
  "IsRst test_env fl = (fl AND 4 \<noteq> 0)"
  "IsPush test_env fl = (fl AND 16 \<noteq> 0)"
  "GetStream test_env t rid fl = (if t rid = None then None else Some rid)"
  "CreateOrGetStream test_env t rid fl =
     (case t rid of None \<Rightarrow> ((rid, False), t(rid \<mapsto> False)) | Some c \<Rightarrow> ((rid, True), t))"
  "AddOutFrame test_env s rid fl t =
     (case t s of
        None \<Rightarrow> (False, t)
      | Some c \<Rightarrow> if c then (False, t) else (True, t(s \<mapsto> (fl AND 6 \<noteq> 0))))"
  by (simp_all add: test_env_def)

lemma test_conn_sel [simp]:
  "ctx_done test_conn = False" "cs test_conn = Map.empty"
  "ctx_done closed7_conn = False" "cs closed7_conn = [7 \<mapsto> True]"
  "ctx_done cancelled_conn = True" "cs cancelled_conn = Map.empty"
  "ctx_done cancelled7_conn = True" "cs cancelled7_conn = [7 \<mapsto> True]"
  by (simp_all add: test_conn_def closed7_conn_def cancelled_conn_def cancelled7_conn_def)





section \<open>The connection: writeFirstFrame\<close>

lemma uuid_loop_unrolled:
  "uuid_loop gen m 0 k r0 =
     (if m r0 = None then (True, r0, k)
      else if m (gen k) = None then (True, gen k, k + 1)
      else if m (gen (k + 1)) = None then (True, gen (k + 1), k + 2)
      else (False, gen (k + 1), k + 2))"
  by (simp add: uuid_loop.simps [of gen m 0] uuid_loop.simps [of gen m 1] uuid_loop.simps [of gen m 2])

lemma closeUntracked_uuid_calls: "uuid_calls (snd (closeUntracked env sc)) = uuid_calls sc"
  by (simp add: closeUntracked_def split: prod.splits option.splits)

lemma Close_uuid_calls: "Close env sc = Some (e, sc') \<Longrightarrow> uuid_calls sc' = uuid_calls sc"
  using closeUntracked_uuid_calls [of env "snd (server_untrack sc)"]
  by (auto simp add: Close_def server_untrack_def split: if_splits prod.splits)

lemma writeFrame_bytes_uuid_calls:
  "writeFrame_bytes env dfw sc = Some (e, sc') \<Longrightarrow> uuid_calls sc' = uuid_calls sc"
  by (auto simp add: writeFrame_bytes_def Let_def split: prod.splits option.splits if_splits
      dest: Close_uuid_calls)

lemma writeFrame_uuid_calls:
  "writeFrame env dfw sc = Some (e, sc') \<Longrightarrow> uuid_calls sc' = uuid_calls sc"
  by (auto simp add: writeFrame_def Let_def split: prod.splits option.splits if_splits
      dest!: writeFrame_bytes_uuid_calls)

lemma uuid_loop_bounds:
  assumes "uuid_loop gen m 0 (n + 1) (gen n) = (suc, rid, k)"
  shows "n + 1 \<le> k \<and> k \<le> n + 3 \<and> rid = gen (k - 1)
       \<and> (if suc then m (gen (k - 1)) = None
           else k = n + 3 \<and> m (gen n) \<noteq> None \<and> m (gen (n + 1)) \<noteq> None
                \<and> m (gen (n + 2)) \<noteq> None)"
  using assms unfolding uuid_loop_unrolled
  by (auto split: if_splits simp add: numeral_2_eq_2 numeral_3_eq_3)

lemma writeFirstFrame_cases:
  assumes "writeFirstFrame env c fl payload sc = Some (r, sc')"
  shows "(untrack sc \<noteq> 0 \<and> r = Inl ErrConnAlreadyClosed \<and> sc' = sc)
       \<or> (untrack sc = 0
          \<and> (\<exists>rid k. uuid_loop (PoorManUUID env) (pending sc) 0 (uuid_calls sc + 1)
                         (PoorManUUID env (uuid_calls sc)) = (False, rid, k)
                 \<and> r = Inl ErrNoNewUUID
                 \<and> sc' = sc\<lparr>uuid_calls := k, respes := Some (pending sc)\<rparr>))
       \<or> (untrack sc = 0
          \<and> (\<exists>rid k. uuid_loop (PoorManUUID env) (pending sc) 0 (uuid_calls sc + 1)
                         (PoorManUUID env (uuid_calls sc)) = (True, rid, k)
                 \<and> uuid_calls sc' = k))"
proof (cases "untrack sc = 0")
  case False
  with assms show ?thesis by (simp add: writeFirstFrame_def)
next
  case True
  obtain suc rid k where
    l: "uuid_loop (PoorManUUID env) (pending sc) 0 (uuid_calls sc + 1)
          (PoorManUUID env (uuid_calls sc)) = (suc, rid, k)"
    by (cases "uuid_loop (PoorManUUID env) (pending sc) 0 (uuid_calls sc + 1)
          (PoorManUUID env (uuid_calls sc))") auto
  show ?thesis
  proof (cases suc)
    case False
    with assms True l show ?thesis
      by (simp add: writeFirstFrame_def Let_def pending_def)
  next
    case suc: True
    have "uuid_calls sc' = k"
      using assms True l suc
      by (auto simp add: writeFirstFrame_def writeFirstFrame_send_def Let_def pending_def
          EndWrite_def split: option.splits prod.splits dest!: writeFrame_uuid_calls)
    with True l suc show ?thesis by simp
  qed
qed

lemma closeUntracked_respes:
  "respes (snd (closeUntracked env sc)) = respes sc
   \<and> responses (snd (closeUntracked env sc)) = responses sc
   \<and> next_response (snd (closeUntracked env sc)) = next_response sc"
  by (simp add: closeUntracked_def split: prod.splits option.splits)

lemma Close_respes:
  "Close env sc = Some (e, sc') \<Longrightarrow>
     respes sc' = respes sc \<and> responses sc' = responses sc \<and> next_response sc' = next_response sc"
  using closeUntracked_respes [of env "snd (server_untrack sc)"]
  by (auto simp add: Close_def server_untrack_def split: if_splits prod.splits)

lemma writeFrame_bytes_respes:
  "writeFrame_bytes env dfw sc = Some (e, sc') \<Longrightarrow>
     respes sc' = respes sc \<and> responses sc' = responses sc \<and> next_response sc' = next_response sc"
  by (auto simp add: writeFrame_bytes_def Let_def split: prod.splits option.splits if_splits
      dest: Close_respes)

lemma writeFrame_respes:
  "writeFrame env dfw sc = Some (e, sc') \<Longrightarrow>
     respes sc' = respes sc \<and> responses sc' = responses sc \<and> next_response sc' = next_response sc"
  by (auto simp add: writeFrame_def Let_def split: prod.splits option.splits if_splits
      dest!: writeFrame_bytes_respes)

lemma EndWrite_requestID:
  "EndWrite g fbw dfw c = Some (dfw', r) \<Longrightarrow> requestID dfw' = requestID dfw \<and> r = fbw dfw' c"
  by (auto simp add: EndWrite_def EndWrite_patch_def Let_def split: option.splits)

lemma WriteBytes_requestID: "requestID (WriteBytes g dfw bs) = requestID dfw"
  by (simp add: WriteBytes_def)

lemma StartWrite_requestID: "requestID (StartWrite g dfw rid c fl) = rid"
  by (simp add: StartWrite_def Let_def)

lemma writeFirstFrame_send_cases:
  assumes w: "writeFirstFrame_send env c fl payload rid sc1 = Some (r, sc')"
    and m: "respes sc1 = Some m" "m rid = None"
  shows "(\<exists>wr. r = Inr (rid, next_response sc1, wr) \<and> requestID wr = rid
            \<and> respes sc' = Some (m(rid \<mapsto> next_response sc1))
            \<and> responses sc' = (responses sc1)(next_response sc1 := new_response)
            \<and> next_response sc' = next_response sc1 + 1)
       \<or> (\<exists>e dfw sc2 sc3. r = Inl e \<and> writeFrame env dfw sc2 = Some (Some e, sc3)
            \<and> requestID dfw = rid
            \<and> respes sc2 = Some (m(rid \<mapsto> next_response sc1))
            \<and> respes sc' = Some m)"
proof -
  let ?a = "next_response sc1"
  let ?sc2 = "sc1\<lparr>responses := (responses sc1)(?a := new_response),
                        next_response := ?a + 1,
                        respes := Some (m(rid \<mapsto> ?a))\<rparr>"
  let ?writer = "WriteBytes (growslice env)
                         (StartWrite (growslice env) newFrameWriter rid c fl) payload"
  from w m obtain wr res where
    e: "EndWrite (growslice env) (writeFrame env) ?writer ?sc2 = Some (wr, Some res)"
    by (auto simp add: writeFirstFrame_send_def Let_def split: option.splits prod.splits)
  obtain err sc3 where res: "res = (err, sc3)" by (cases res)
  from EndWrite_requestID [OF e]
  have q: "requestID wr = rid" and f: "writeFrame env wr ?sc2 = Some (err, sc3)"
    by (simp_all add: WriteBytes_requestID StartWrite_requestID res)
  from writeFrame_respes [OF f]
  have p: "respes sc3 = Some (m(rid \<mapsto> ?a))"
       "responses sc3 = (responses sc1)(?a := new_response)" "next_response sc3 = ?a + 1"
    by simp_all
  show ?thesis
  proof (cases err)
    case None
    with w m e res have "r = Inr (rid, ?a, wr)" "sc' = sc3"
      by (simp_all add: writeFirstFrame_send_def Let_def)
    with q p show ?thesis by simp
  next
    case (Some er)
    have i: "m(rid := None) = m" using m(2) by (auto simp add: fun_eq_iff)
    from w m e res Some p have "r = Inl er" "respes sc' = Some (m(rid := None))"
      by (auto simp add: writeFirstFrame_send_def Let_def)
    then have "r = Inl er" "respes sc' = Some m" by (simp_all only: i)
    moreover have "respes ?sc2 = Some (m(rid \<mapsto> ?a))" by simp
    ultimately show ?thesis using f q Some by blast
  qed
qed

lemma writeFirstFrame_send_uuid_calls:
  "writeFirstFrame_send env c fl payload rid sc1 = Some (r, sc') \<Longrightarrow> uuid_calls sc' = uuid_calls sc1"
  by (auto simp add: writeFirstFrame_send_def Let_def EndWrite_def
      split: option.splits prod.splits dest!: writeFrame_uuid_calls)

lemma writeFirstFrame_free:
  assumes "untrack sc = 0"
    and "uuid_loop (PoorManUUID env) (pending sc) 0 (uuid_calls sc + 1)
           (PoorManUUID env (uuid_calls sc)) = (True, rid, k)"
  shows "writeFirstFrame env c fl payload sc
           = writeFirstFrame_send env c fl payload rid (sc\<lparr>uuid_calls := k, respes := Some (pending sc)\<rparr>)"
  using assms by (simp add: writeFirstFrame_def Let_def pending_def)

lemma uuid_loop_first_free:
  assumes "uuid_loop gen m 0 (n + 1) (gen n) = (True, rid, k)"
  shows "n < k \<and> k \<le> n + 3 \<and> rid = gen (k - 1) \<and> m rid = None
       \<and> (\<forall>j. n \<le> j \<and> j < k - 1 \<longrightarrow> m (gen j) \<noteq> None)"
proof -
  have a: "j = n" if "n \<le> j" "j < n + 1" for j using that by arith
  have b: "j = n \<or> j = n + 1" if "n \<le> j" "j < n + 2" for j using that by arith
  from assms consider
      "m (gen n) = None" "rid = gen n" "k = n + 1"
    | "m (gen n) \<noteq> None" "m (gen (n + 1)) = None" "rid = gen (n + 1)" "k = n + 2"
    | "m (gen n) \<noteq> None" "m (gen (n + 1)) \<noteq> None" "m (gen (n + 2)) = None"
      "rid = gen (n + 2)" "k = n + 3"
    unfolding uuid_loop_unrolled
    by (auto split: if_splits simp add: numeral_2_eq_2 numeral_3_eq_3)
  then show ?thesis
  proof cases
    case 1
    then show ?thesis by auto
  next
    case 2
    have "m (gen j) \<noteq> None" if "n \<le> j \<and> j < k - 1" for j
    proof -
      from that 2(4) have "j = n" by (intro a) simp_all
      with 2(1) show ?thesis by simp
    qed
    with 2 show ?thesis by simp
  next
    case 3
    have "m (gen j) \<noteq> None" if "n \<le> j \<and> j < k - 1" for j
    proof -
      from that 3(5) have "j = n \<or> j = n + 1" by (intro b) simp_all
      with 3(1,2) show ?thesis by auto
    qed
    with 3 show ?thesis by simp
  qed
qed

text \<open>
  Claim C5. A call of \<open>writeFirstFrame\<close> that returns has made at most three calls of
  \<open>PoorManUUID\<close>; when it made at least one and every id it generated is registered in the
  map of pending responses, it returns \<open>ErrNoNewUUID\<close> after three ids, the map is the same,
  no response was allocated and nothing was written. On a connection that is not
  untracked whose next three ids are all registered the call does return, with
  \<open>ErrNoNewUUID\<close> and a connection that differs only in the count of generated ids. On a
  connection that is not untracked, when one of the next three ids is not registered,
  the call goes on with the first of them that is not, after as many calls of
  \<open>PoorManUUID\<close> as it took to reach it. A call that returns a request id returns the
  last id generated, which was not registered while every id generated before it was, on
  a writer for that id, and has registered a new response under it. A call that returns
  an error leaves the map as it was, and the error is \<open>ErrConnAlreadyClosed\<close> on an
  untracked connection, \<open>ErrNoNewUUID\<close> with the next three ids all registered, or the
  error that \<open>writeFrame\<close> returned for the frame with the id chosen, called with the
  response registered under that id.
\<close>

theorem writeFirstFrame_uuid:
  "(\<forall>r sc'. writeFirstFrame env c fl payload sc = Some (r, sc') \<longrightarrow>
       uuid_calls sc \<le> uuid_calls sc' \<and> uuid_calls sc' \<le> uuid_calls sc + 3
     \<and> (uuid_calls sc < uuid_calls sc'
          \<and> (\<forall>j. uuid_calls sc \<le> j \<and> j < uuid_calls sc' \<longrightarrow>
                 pending sc (PoorManUUID env j) \<noteq> None) \<longrightarrow>
          r = Inl ErrNoNewUUID \<and> uuid_calls sc' = uuid_calls sc + 3
          \<and> pending sc' = pending sc \<and> next_response sc' = next_response sc
          \<and> responses sc' = responses sc \<and> rwc sc' = rwc sc))
   \<and> (untrack sc = 0
        \<and> pending sc (PoorManUUID env (uuid_calls sc)) \<noteq> None
        \<and> pending sc (PoorManUUID env (uuid_calls sc + 1)) \<noteq> None
        \<and> pending sc (PoorManUUID env (uuid_calls sc + 2)) \<noteq> None \<longrightarrow>
        writeFirstFrame env c fl payload sc
          = Some (Inl ErrNoNewUUID, sc\<lparr>uuid_calls := uuid_calls sc + 3\<rparr>))
   \<and> (untrack sc = 0 \<longrightarrow>
        (pending sc (PoorManUUID env (uuid_calls sc)) = None \<longrightarrow>
           writeFirstFrame env c fl payload sc
             = writeFirstFrame_send env c fl payload (PoorManUUID env (uuid_calls sc))
                 (sc\<lparr>uuid_calls := uuid_calls sc + 1, respes := Some (pending sc)\<rparr>))
      \<and> (pending sc (PoorManUUID env (uuid_calls sc)) \<noteq> None
           \<and> pending sc (PoorManUUID env (uuid_calls sc + 1)) = None \<longrightarrow>
           writeFirstFrame env c fl payload sc
             = writeFirstFrame_send env c fl payload (PoorManUUID env (uuid_calls sc + 1))
                 (sc\<lparr>uuid_calls := uuid_calls sc + 2, respes := Some (pending sc)\<rparr>))
      \<and> (pending sc (PoorManUUID env (uuid_calls sc)) \<noteq> None
           \<and> pending sc (PoorManUUID env (uuid_calls sc + 1)) \<noteq> None
           \<and> pending sc (PoorManUUID env (uuid_calls sc + 2)) = None \<longrightarrow>
           writeFirstFrame env c fl payload sc
             = writeFirstFrame_send env c fl payload (PoorManUUID env (uuid_calls sc + 2))
                 (sc\<lparr>uuid_calls := uuid_calls sc + 3, respes := Some (pending sc)\<rparr>)))
   \<and> (\<forall>rid a wr sc'. writeFirstFrame env c fl payload sc = Some (Inr (rid, a, wr), sc') \<longrightarrow>
        untrack sc = 0 \<and> uuid_calls sc < uuid_calls sc'
        \<and> rid = PoorManUUID env (uuid_calls sc' - 1) \<and> pending sc rid = None
        \<and> (\<forall>j. uuid_calls sc \<le> j \<and> j < uuid_calls sc' - 1 \<longrightarrow>
               pending sc (PoorManUUID env j) \<noteq> None)
        \<and> requestID wr = rid \<and> a = next_response sc
        \<and> pending sc' = (pending sc)(rid \<mapsto> a)
        \<and> responses sc' = (responses sc)(a := new_response)
        \<and> next_response sc' = a + 1)
   \<and> (\<forall>e sc'. writeFirstFrame env c fl payload sc = Some (Inl e, sc') \<longrightarrow>
        pending sc' = pending sc
        \<and> ((untrack sc \<noteq> 0 \<and> e = ErrConnAlreadyClosed)
           \<or> (untrack sc = 0 \<and> e = ErrNoNewUUID
              \<and> pending sc (PoorManUUID env (uuid_calls sc)) \<noteq> None
              \<and> pending sc (PoorManUUID env (uuid_calls sc + 1)) \<noteq> None
              \<and> pending sc (PoorManUUID env (uuid_calls sc + 2)) \<noteq> None)
           \<or> (untrack sc = 0
              \<and> (\<exists>dfw sc2 sc3. writeFrame env dfw sc2 = Some (Some e, sc3)
                     \<and> requestID dfw = PoorManUUID env (uuid_calls sc' - 1)
                     \<and> pending sc (requestID dfw) = None
                     \<and> pending sc2 = (pending sc)(requestID dfw \<mapsto> next_response sc)))))"
proof -
  let ?gen = "PoorManUUID env" and ?n = "uuid_calls sc"
  let ?wff = "writeFirstFrame env c fl payload sc"
  let ?send = "writeFirstFrame_send env c fl payload"
  have 1: "uuid_calls sc \<le> uuid_calls sc' \<and> uuid_calls sc' \<le> uuid_calls sc + 3
     \<and> (uuid_calls sc < uuid_calls sc'
          \<and> (\<forall>j. uuid_calls sc \<le> j \<and> j < uuid_calls sc' \<longrightarrow>
                 pending sc (PoorManUUID env j) \<noteq> None) \<longrightarrow>
          r = Inl ErrNoNewUUID \<and> uuid_calls sc' = uuid_calls sc + 3
          \<and> pending sc' = pending sc \<and> next_response sc' = next_response sc
          \<and> responses sc' = responses sc \<and> rwc sc' = rwc sc)"
    if w: "?wff = Some (r, sc')" for r sc'
  proof -
    consider
      (closed) "untrack sc \<noteq> 0" "r = Inl ErrConnAlreadyClosed" "sc' = sc"
    | (fail) rid k where "uuid_loop ?gen (pending sc) 0 (?n + 1) (?gen ?n) = (False, rid, k)"
        "r = Inl ErrNoNewUUID" "sc' = sc\<lparr>uuid_calls := k, respes := Some (pending sc)\<rparr>"
    | (suc) rid k where "uuid_loop ?gen (pending sc) 0 (?n + 1) (?gen ?n) = (True, rid, k)"
        "uuid_calls sc' = k"
      using writeFirstFrame_cases [OF w] by blast
    then show ?thesis
    proof cases
      case closed
      then show ?thesis by simp
    next
      case fail
      from uuid_loop_bounds [OF fail(1)] have "k = ?n + 3" by simp
      with fail show ?thesis by (simp add: pending_def)
    next
      case suc
      from uuid_loop_bounds [OF suc(1)]
      have b: "?n + 1 \<le> k" "k \<le> ?n + 3" "pending sc (?gen (k - 1)) = None" by simp_all
      have "\<not> (\<forall>j. ?n \<le> j \<and> j < k \<longrightarrow> pending sc (?gen j) \<noteq> None)"
      proof
        assume "\<forall>j. ?n \<le> j \<and> j < k \<longrightarrow> pending sc (?gen j) \<noteq> None"
        moreover have "?n \<le> k - 1 \<and> k - 1 < k" using b by arith
        ultimately have "pending sc (?gen (k - 1)) \<noteq> None" by blast
        with b show False by simp
      qed
      then have "\<not> (\<forall>j. ?n \<le> j \<and> j < uuid_calls sc' \<longrightarrow> pending sc (?gen j) \<noteq> None)"
        unfolding suc(2) .
      moreover have "?n \<le> uuid_calls sc'" "uuid_calls sc' \<le> ?n + 3"
        using b suc(2) by simp_all
      ultimately show ?thesis by blast
    qed
  qed
  have 2: "?wff = Some (Inl ErrNoNewUUID, sc\<lparr>uuid_calls := uuid_calls sc + 3\<rparr>)"
    if u: "untrack sc = 0" and p: "pending sc (?gen ?n) \<noteq> None"
      "pending sc (?gen (?n + 1)) \<noteq> None" "pending sc (?gen (?n + 2)) \<noteq> None"
  proof -
    have l: "uuid_loop ?gen (pending sc) 0 (?n + 1) (?gen ?n) = (False, ?gen (?n + 2), ?n + 3)"
      using p by (simp add: uuid_loop_unrolled)
    from p obtain m where m: "respes sc = Some m"
      by (cases "respes sc") (auto simp add: pending_def)
    then have pm: "pending sc = m" by (simp add: pending_def)
    have e: "sc\<lparr>uuid_calls := ?n + 3, respes := Some m\<rparr> = sc\<lparr>uuid_calls := ?n + 3\<rparr>"
      using m by simp
    have "?wff = Some (Inl ErrNoNewUUID, sc\<lparr>uuid_calls := ?n + 3, respes := Some m\<rparr>)"
      using u l [unfolded pm] m by (simp add: writeFirstFrame_def Let_def)
    then show ?thesis by (simp only: e)
  qed
  have 3: "?wff = ?send (?gen ?n) (sc\<lparr>uuid_calls := ?n + 1, respes := Some (pending sc)\<rparr>)"
    if "untrack sc = 0" "pending sc (?gen ?n) = None"
    using that by (intro writeFirstFrame_free) (simp_all add: uuid_loop_unrolled)
  have 4: "?wff = ?send (?gen (?n + 1)) (sc\<lparr>uuid_calls := ?n + 2, respes := Some (pending sc)\<rparr>)"
    if "untrack sc = 0" "pending sc (?gen ?n) \<noteq> None" "pending sc (?gen (?n + 1)) = None"
    using that by (intro writeFirstFrame_free) (simp_all add: uuid_loop_unrolled)
  have 5: "?wff = ?send (?gen (?n + 2)) (sc\<lparr>uuid_calls := ?n + 3, respes := Some (pending sc)\<rparr>)"
    if "untrack sc = 0" "pending sc (?gen ?n) \<noteq> None" "pending sc (?gen (?n + 1)) \<noteq> None"
      "pending sc (?gen (?n + 2)) = None"
    using that by (intro writeFirstFrame_free) (simp_all add: uuid_loop_unrolled)
  have cases: "(untrack sc \<noteq> 0 \<and> r = Inl ErrConnAlreadyClosed \<and> sc' = sc)
      \<or> (untrack sc = 0 \<and> r = Inl ErrNoNewUUID \<and> pending sc' = pending sc
          \<and> pending sc (?gen ?n) \<noteq> None \<and> pending sc (?gen (?n + 1)) \<noteq> None
          \<and> pending sc (?gen (?n + 2)) \<noteq> None)
      \<or> (untrack sc = 0 \<and> ?n < uuid_calls sc' \<and> pending sc (?gen (uuid_calls sc' - 1)) = None
          \<and> (\<forall>j. ?n \<le> j \<and> j < uuid_calls sc' - 1 \<longrightarrow> pending sc (?gen j) \<noteq> None)
          \<and> ?send (?gen (uuid_calls sc' - 1))
                (sc\<lparr>uuid_calls := uuid_calls sc', respes := Some (pending sc)\<rparr>) = Some (r, sc'))"
    if w: "?wff = Some (r, sc')" for r sc'
  proof -
    consider
      (closed) "untrack sc \<noteq> 0" "r = Inl ErrConnAlreadyClosed" "sc' = sc"
    | (fail) rid k where "untrack sc = 0"
        "uuid_loop ?gen (pending sc) 0 (?n + 1) (?gen ?n) = (False, rid, k)"
        "r = Inl ErrNoNewUUID" "sc' = sc\<lparr>uuid_calls := k, respes := Some (pending sc)\<rparr>"
    | (suc) rid k where "untrack sc = 0"
        "uuid_loop ?gen (pending sc) 0 (?n + 1) (?gen ?n) = (True, rid, k)"
        "uuid_calls sc' = k"
      using writeFirstFrame_cases [OF w] by blast
    then show ?thesis
    proof cases
      case closed
      then show ?thesis by simp
    next
      case fail
      from uuid_loop_bounds [OF fail(2)] fail show ?thesis by (simp add: pending_def)
    next
      case suc
      note f = uuid_loop_first_free [OF suc(2)]
      from f have rid: "rid = ?gen (k - 1)" by simp
      from writeFirstFrame_free [OF suc(1) suc(2), of c fl payload] w
      have "?send (?gen (k - 1)) (sc\<lparr>uuid_calls := k, respes := Some (pending sc)\<rparr>) = Some (r, sc')"
        by (simp only: rid)
      with f suc(1) show ?thesis unfolding suc(3) rid by blast
    qed
  qed
  have 6: "untrack sc = 0 \<and> uuid_calls sc < uuid_calls sc'
        \<and> rid = PoorManUUID env (uuid_calls sc' - 1) \<and> pending sc rid = None
        \<and> (\<forall>j. uuid_calls sc \<le> j \<and> j < uuid_calls sc' - 1 \<longrightarrow>
               pending sc (PoorManUUID env j) \<noteq> None)
        \<and> requestID wr = rid \<and> a = next_response sc
        \<and> pending sc' = (pending sc)(rid \<mapsto> a)
        \<and> responses sc' = (responses sc)(a := new_response)
        \<and> next_response sc' = a + 1"
    if w: "?wff = Some (Inr (rid, a, wr), sc')" for rid a wr sc'
  proof -
    let ?sc1 = "sc\<lparr>uuid_calls := uuid_calls sc', respes := Some (pending sc)\<rparr>"
    from cases [OF w] have c: "untrack sc = 0" "?n < uuid_calls sc'"
      "pending sc (?gen (uuid_calls sc' - 1)) = None"
      "\<forall>j. ?n \<le> j \<and> j < uuid_calls sc' - 1 \<longrightarrow> pending sc (?gen j) \<noteq> None"
      "?send (?gen (uuid_calls sc' - 1)) ?sc1 = Some (Inr (rid, a, wr), sc')"
      by simp_all
    have "respes ?sc1 = Some (pending sc)" by simp
    from writeFirstFrame_send_cases [OF c(5) this c(3)]
    have "rid = ?gen (uuid_calls sc' - 1)" "a = next_response sc" "requestID wr = rid"
      "respes sc' = Some ((pending sc)(rid \<mapsto> a))"
      "responses sc' = (responses sc)(a := new_response)" "next_response sc' = a + 1"
      by auto
    with c show ?thesis by (simp add: pending_def)
  qed
  have 7: "pending sc' = pending sc
        \<and> ((untrack sc \<noteq> 0 \<and> e = ErrConnAlreadyClosed)
           \<or> (untrack sc = 0 \<and> e = ErrNoNewUUID
              \<and> pending sc (PoorManUUID env (uuid_calls sc)) \<noteq> None
              \<and> pending sc (PoorManUUID env (uuid_calls sc + 1)) \<noteq> None
              \<and> pending sc (PoorManUUID env (uuid_calls sc + 2)) \<noteq> None)
           \<or> (untrack sc = 0
              \<and> (\<exists>dfw sc2 sc3. writeFrame env dfw sc2 = Some (Some e, sc3)
                     \<and> requestID dfw = PoorManUUID env (uuid_calls sc' - 1)
                     \<and> pending sc (requestID dfw) = None
                     \<and> pending sc2 = (pending sc)(requestID dfw \<mapsto> next_response sc))))"
    if w: "?wff = Some (Inl e, sc')" for e sc'
  proof -
    let ?sc1 = "sc\<lparr>uuid_calls := uuid_calls sc', respes := Some (pending sc)\<rparr>"
    from cases [OF w] consider
      (closed) "untrack sc \<noteq> 0" "e = ErrConnAlreadyClosed" "sc' = sc"
    | (fail) "untrack sc = 0" "e = ErrNoNewUUID" "pending sc' = pending sc"
        "pending sc (?gen ?n) \<noteq> None" "pending sc (?gen (?n + 1)) \<noteq> None"
        "pending sc (?gen (?n + 2)) \<noteq> None"
    | (sent) "untrack sc = 0" "pending sc (?gen (uuid_calls sc' - 1)) = None"
        "?send (?gen (uuid_calls sc' - 1)) ?sc1 = Some (Inl e, sc')"
      by auto
    then show ?thesis
    proof cases
      case closed
      then show ?thesis by simp
    next
      case fail
      then show ?thesis by simp
    next
      case sent
      have "respes ?sc1 = Some (pending sc)" by simp
      from writeFirstFrame_send_cases [OF sent(3) this sent(2)]
      obtain dfw sc2 sc3 where d: "writeFrame env dfw sc2 = Some (Some e, sc3)"
        "requestID dfw = ?gen (uuid_calls sc' - 1)"
        "respes sc2 = Some ((pending sc)(?gen (uuid_calls sc' - 1) \<mapsto> next_response sc))"
        "respes sc' = Some (pending sc)"
        by auto
      have "pending sc' = pending sc"
        "pending sc2 = (pending sc)(requestID dfw \<mapsto> next_response sc)"
        using d by (simp_all add: pending_def)
      moreover have "pending sc (requestID dfw) = None" using sent(2) d(2) by simp
      ultimately have "pending sc' = pending sc"
        "\<exists>dfw sc2 sc3. writeFrame env dfw sc2 = Some (Some e, sc3)
                     \<and> requestID dfw = PoorManUUID env (uuid_calls sc' - 1)
                     \<and> pending sc (requestID dfw) = None
                     \<and> pending sc2 = (pending sc)(requestID dfw \<mapsto> next_response sc)"
        using d(1,2) by blast+
      with sent(1) show ?thesis by simp
    qed
  qed
  have a: "\<forall>r sc'. ?wff = Some (r, sc') \<longrightarrow>
       uuid_calls sc \<le> uuid_calls sc' \<and> uuid_calls sc' \<le> uuid_calls sc + 3
     \<and> (uuid_calls sc < uuid_calls sc'
          \<and> (\<forall>j. uuid_calls sc \<le> j \<and> j < uuid_calls sc' \<longrightarrow>
                 pending sc (PoorManUUID env j) \<noteq> None) \<longrightarrow>
          r = Inl ErrNoNewUUID \<and> uuid_calls sc' = uuid_calls sc + 3
          \<and> pending sc' = pending sc \<and> next_response sc' = next_response sc
          \<and> responses sc' = responses sc \<and> rwc sc' = rwc sc)"
    using 1 by (intro allI impI)
  have b: "untrack sc = 0
        \<and> pending sc (PoorManUUID env (uuid_calls sc)) \<noteq> None
        \<and> pending sc (PoorManUUID env (uuid_calls sc + 1)) \<noteq> None
        \<and> pending sc (PoorManUUID env (uuid_calls sc + 2)) \<noteq> None \<longrightarrow>
        writeFirstFrame env c fl payload sc
          = Some (Inl ErrNoNewUUID, sc\<lparr>uuid_calls := uuid_calls sc + 3\<rparr>)"
    using 2 by (intro impI) (elim conjE)
  have c: "untrack sc = 0 \<longrightarrow>
        (pending sc (PoorManUUID env (uuid_calls sc)) = None \<longrightarrow>
           writeFirstFrame env c fl payload sc
             = writeFirstFrame_send env c fl payload (PoorManUUID env (uuid_calls sc))
                 (sc\<lparr>uuid_calls := uuid_calls sc + 1, respes := Some (pending sc)\<rparr>))
      \<and> (pending sc (PoorManUUID env (uuid_calls sc)) \<noteq> None
           \<and> pending sc (PoorManUUID env (uuid_calls sc + 1)) = None \<longrightarrow>
           writeFirstFrame env c fl payload sc
             = writeFirstFrame_send env c fl payload (PoorManUUID env (uuid_calls sc + 1))
                 (sc\<lparr>uuid_calls := uuid_calls sc + 2, respes := Some (pending sc)\<rparr>))
      \<and> (pending sc (PoorManUUID env (uuid_calls sc)) \<noteq> None
           \<and> pending sc (PoorManUUID env (uuid_calls sc + 1)) \<noteq> None
           \<and> pending sc (PoorManUUID env (uuid_calls sc + 2)) = None \<longrightarrow>
           writeFirstFrame env c fl payload sc
             = writeFirstFrame_send env c fl payload (PoorManUUID env (uuid_calls sc + 2))
                 (sc\<lparr>uuid_calls := uuid_calls sc + 3, respes := Some (pending sc)\<rparr>))"
  proof (intro impI conjI)
    assume u: "untrack sc = 0"
    show "?wff = ?send (?gen ?n) (sc\<lparr>uuid_calls := ?n + 1, respes := Some (pending sc)\<rparr>)"
      if "pending sc (?gen ?n) = None"
      using 3 [OF u that] .
    show "?wff = ?send (?gen (?n + 1)) (sc\<lparr>uuid_calls := ?n + 2, respes := Some (pending sc)\<rparr>)"
      if "pending sc (?gen ?n) \<noteq> None \<and> pending sc (?gen (?n + 1)) = None"
      using 4 [OF u] that by (elim conjE)
    show "?wff = ?send (?gen (?n + 2)) (sc\<lparr>uuid_calls := ?n + 3, respes := Some (pending sc)\<rparr>)"
      if "pending sc (?gen ?n) \<noteq> None \<and> pending sc (?gen (?n + 1)) \<noteq> None
           \<and> pending sc (?gen (?n + 2)) = None"
      using 5 [OF u] that by (elim conjE)
  qed
  have d: "\<forall>rid a wr sc'. writeFirstFrame env c fl payload sc = Some (Inr (rid, a, wr), sc') \<longrightarrow>
        untrack sc = 0 \<and> uuid_calls sc < uuid_calls sc'
        \<and> rid = PoorManUUID env (uuid_calls sc' - 1) \<and> pending sc rid = None
        \<and> (\<forall>j. uuid_calls sc \<le> j \<and> j < uuid_calls sc' - 1 \<longrightarrow>
               pending sc (PoorManUUID env j) \<noteq> None)
        \<and> requestID wr = rid \<and> a = next_response sc
        \<and> pending sc' = (pending sc)(rid \<mapsto> a)
        \<and> responses sc' = (responses sc)(a := new_response)
        \<and> next_response sc' = a + 1"
    using 6 by (intro allI impI)
  have e: "\<forall>e sc'. writeFirstFrame env c fl payload sc = Some (Inl e, sc') \<longrightarrow>
        pending sc' = pending sc
        \<and> ((untrack sc \<noteq> 0 \<and> e = ErrConnAlreadyClosed)
           \<or> (untrack sc = 0 \<and> e = ErrNoNewUUID
              \<and> pending sc (PoorManUUID env (uuid_calls sc)) \<noteq> None
              \<and> pending sc (PoorManUUID env (uuid_calls sc + 1)) \<noteq> None
              \<and> pending sc (PoorManUUID env (uuid_calls sc + 2)) \<noteq> None)
           \<or> (untrack sc = 0
              \<and> (\<exists>dfw sc2 sc3. writeFrame env dfw sc2 = Some (Some e, sc3)
                     \<and> requestID dfw = PoorManUUID env (uuid_calls sc' - 1)
                     \<and> pending sc (requestID dfw) = None
                     \<and> pending sc2 = (pending sc)(requestID dfw \<mapsto> next_response sc))))"
    using 7 by (intro allI impI)
  show ?thesis by (rule conjI [OF a conjI [OF b conjI [OF c conjI [OF d e]]]])
qed

lemma crowded_conn_sel:
  "untrack crowded_conn = 0" "uuid_calls crowded_conn = 0"
  "pending crowded_conn = [0 \<mapsto> 0, 1 \<mapsto> 1, 2 \<mapsto> 2]"
  by (simp_all add: crowded_conn_def test_conn_def pending_def)

lemma sparse_conn_sel:
  "untrack sparse_conn = 0" "uuid_calls sparse_conn = 0" "next_response sparse_conn = 3"
  "respes sparse_conn = Some [0 \<mapsto> 0, 2 \<mapsto> 2]"
  "pending sparse_conn = [0 \<mapsto> 0, 2 \<mapsto> 2]"
  "untrack sparse_dead_conn = 0" "uuid_calls sparse_dead_conn = 0" "next_response sparse_dead_conn = 3"
  "respes sparse_dead_conn = Some [0 \<mapsto> 0, 2 \<mapsto> 2]"
  "pending sparse_dead_conn = [0 \<mapsto> 0, 2 \<mapsto> 2]"
  by (simp_all add: sparse_conn_def sparse_dead_conn_def test_conn_def pending_def)

lemma sparse_conn_send:
  "\<exists>sc'. writeFirstFrame_send test_env 1 0 [1, 2, 3] 1 (sparse_conn\<lparr>uuid_calls := 2\<rparr>)
           = Some (Inr (1, 3,
               \<lparr>wbuf = \<lparr>backing = [0, 0, 0, 15, 0, 0, 0, 0, 0, 0, 0, 1, 0, 0, 0, 1, 1, 2, 3], slen = 19\<rparr>,
                requestID = 1, cmd = 1, flags = 0\<rparr>), sc')
         \<and> wire (rwc sc') = [0, 0, 0, 15, 0, 0, 0, 0, 0, 0, 0, 1, 0, 0, 0, 1, 1, 2, 3]"
  by (simp add: writeFirstFrame_send_def sparse_conn_def test_conn_def test_env_def
      EndWrite_def EndWrite_patch_def append_discard_def slice_to_def
      WriteBytes_def StartWrite_def go_append_def newFrameWriter_def nil_slice_def grow_exact_def
      byte_shr_def byte_shr_int_def cap_def contents_def Let_def writeFrame_def writeFrame_bytes_def)

lemma sparse_dead_conn_send:
  "\<exists>sc'. writeFirstFrame_send test_env 1 0 [1, 2, 3] 1 (sparse_dead_conn\<lparr>uuid_calls := 2\<rparr>)
           = Some (Inl (OtherErr 0), sc')
         \<and> rwc sc' = \<lparr>wire = [], close_calls = 2, inbox = []\<rparr>
         \<and> mailbox_closed (responses sc' 3)"
  by (simp add: writeFirstFrame_send_def sparse_dead_conn_def sparse_conn_def test_conn_def test_env_def
      EndWrite_def EndWrite_patch_def append_discard_def slice_to_def
      WriteBytes_def StartWrite_def go_append_def newFrameWriter_def nil_slice_def grow_exact_def
      byte_shr_def byte_shr_int_def cap_def contents_def Let_def writeFrame_def writeFrame_bytes_def
      Close_def closeUntracked_def server_untrack_def response_Close_def new_response_def)

text \<open>
  The hypotheses of the theorem for C5 hold on the example connection with the ids 0, 1
  and 2 registered, where the call returns \<open>ErrNoNewUUID\<close>; with the ids 0 and 2
  registered, where the call takes the id 1, registers the response and writes the frame;
  and with the ids 0 and 2 registered and a closed socket, where the write fails and the
  response is closed and removed again.
\<close>

theorem writeFirstFrame_uuid_witness:
  "untrack crowded_conn = 0
   \<and> pending crowded_conn (PoorManUUID test_env (uuid_calls crowded_conn)) \<noteq> None
   \<and> pending crowded_conn (PoorManUUID test_env (uuid_calls crowded_conn + 1)) \<noteq> None
   \<and> pending crowded_conn (PoorManUUID test_env (uuid_calls crowded_conn + 2)) \<noteq> None
   \<and> writeFirstFrame test_env 1 0 [1, 2, 3] crowded_conn
       = Some (Inl ErrNoNewUUID, crowded_conn\<lparr>uuid_calls := 3\<rparr>)
   \<and> untrack sparse_conn = 0
   \<and> pending sparse_conn (PoorManUUID test_env (uuid_calls sparse_conn)) \<noteq> None
   \<and> pending sparse_conn (PoorManUUID test_env (uuid_calls sparse_conn + 1)) = None
   \<and> writeFirstFrame test_env 1 0 [1, 2, 3] sparse_conn
       = writeFirstFrame_send test_env 1 0 [1, 2, 3] 1 (sparse_conn\<lparr>uuid_calls := 2\<rparr>)
   \<and> (\<exists>sc'. writeFirstFrame test_env 1 0 [1, 2, 3] sparse_conn
           = Some (Inr (1, 3,
               \<lparr>wbuf = \<lparr>backing = [0, 0, 0, 15, 0, 0, 0, 0, 0, 0, 0, 1, 0, 0, 0, 1, 1, 2, 3], slen = 19\<rparr>,
                requestID = 1, cmd = 1, flags = 0\<rparr>), sc')
         \<and> wire (rwc sc') = [0, 0, 0, 15, 0, 0, 0, 0, 0, 0, 0, 1, 0, 0, 0, 1, 1, 2, 3]
         \<and> uuid_calls sc' = 2
         \<and> pending sc' = [0 \<mapsto> 0, 2 \<mapsto> 2, 1 \<mapsto> 3]
         \<and> responses sc' = (responses sparse_conn)(3 := new_response)
         \<and> next_response sc' = 4)
   \<and> untrack sparse_dead_conn = 0
   \<and> pending sparse_dead_conn (PoorManUUID test_env (uuid_calls sparse_dead_conn)) \<noteq> None
   \<and> pending sparse_dead_conn (PoorManUUID test_env (uuid_calls sparse_dead_conn + 1)) = None
   \<and> (\<exists>sc'. writeFirstFrame test_env 1 0 [1, 2, 3] sparse_dead_conn = Some (Inl (OtherErr 0), sc')
         \<and> rwc sc' = \<lparr>wire = [], close_calls = 2, inbox = []\<rparr>
         \<and> mailbox_closed (responses sc' 3)
         \<and> pending sc' = [0 \<mapsto> 0, 2 \<mapsto> 2])"
proof -
  have g: "PoorManUUID test_env k = of_nat k" for k by (simp add: test_env_def)
  have h: "untrack crowded_conn = 0"
    "pending crowded_conn (PoorManUUID test_env (uuid_calls crowded_conn)) \<noteq> None"
    "pending crowded_conn (PoorManUUID test_env (uuid_calls crowded_conn + 1)) \<noteq> None"
    "pending crowded_conn (PoorManUUID test_env (uuid_calls crowded_conn + 2)) \<noteq> None"
    by (simp_all add: crowded_conn_sel g)
  from writeFirstFrame_uuid [of test_env 1 0 "[1, 2, 3]" crowded_conn] h
  have "writeFirstFrame test_env 1 0 [1, 2, 3] crowded_conn
       = Some (Inl ErrNoNewUUID, crowded_conn\<lparr>uuid_calls := uuid_calls crowded_conn + 3\<rparr>)"
    by blast
  then have c: "writeFirstFrame test_env 1 0 [1, 2, 3] crowded_conn
       = Some (Inl ErrNoNewUUID, crowded_conn\<lparr>uuid_calls := 3\<rparr>)"
    by (simp add: crowded_conn_sel)
  have hs: "untrack sparse_conn = 0"
    "pending sparse_conn (PoorManUUID test_env (uuid_calls sparse_conn)) \<noteq> None"
    "pending sparse_conn (PoorManUUID test_env (uuid_calls sparse_conn + 1)) = None"
    by (simp_all add: sparse_conn_sel g)
  have es: "sparse_conn\<lparr>uuid_calls := uuid_calls sparse_conn + 2, respes := Some (pending sparse_conn)\<rparr>
          = sparse_conn\<lparr>uuid_calls := 2\<rparr>"
    by (simp add: sparse_conn_def test_conn_def pending_def)
  from writeFirstFrame_uuid [of test_env 1 0 "[1, 2, 3]" sparse_conn] hs
  have "writeFirstFrame test_env 1 0 [1, 2, 3] sparse_conn
       = writeFirstFrame_send test_env 1 0 [1, 2, 3] (PoorManUUID test_env (uuid_calls sparse_conn + 1))
           (sparse_conn\<lparr>uuid_calls := uuid_calls sparse_conn + 2, respes := Some (pending sparse_conn)\<rparr>)"
    by blast
  then have s: "writeFirstFrame test_env 1 0 [1, 2, 3] sparse_conn
       = writeFirstFrame_send test_env 1 0 [1, 2, 3] 1 (sparse_conn\<lparr>uuid_calls := 2\<rparr>)"
    unfolding es by (simp add: g sparse_conn_sel)
  let ?wr = "\<lparr>wbuf = \<lparr>backing = [0, 0, 0, 15, 0, 0, 0, 0, 0, 0, 0, 1, 0, 0, 0, 1, 1, 2, 3], slen = 19\<rparr>,
                requestID = 1, cmd = 1, flags = 0\<rparr>"
  from sparse_conn_send obtain sc' where
    r: "writeFirstFrame test_env 1 0 [1, 2, 3] sparse_conn = Some (Inr (1, 3, ?wr), sc')"
    and w: "wire (rwc sc') = [0, 0, 0, 15, 0, 0, 0, 0, 0, 0, 0, 1, 0, 0, 0, 1, 1, 2, 3]"
    unfolding s [symmetric] by blast
  from r have u: "uuid_calls sc' = 2"
    unfolding s by (simp add: writeFirstFrame_send_uuid_calls)
  from writeFirstFrame_uuid [of test_env 1 0 "[1, 2, 3]" sparse_conn] r
  have "pending sc' = (pending sparse_conn)(1 \<mapsto> 3)
        \<and> responses sc' = (responses sparse_conn)(3 := new_response)
        \<and> next_response sc' = 3 + 1"
    by blast
  then have i: "pending sc' = [0 \<mapsto> 0, 2 \<mapsto> 2, 1 \<mapsto> 3]"
    "responses sc' = (responses sparse_conn)(3 := new_response)" "next_response sc' = 4"
    by (simp_all add: sparse_conn_sel)
  from r w u i have x: "\<exists>sc'. writeFirstFrame test_env 1 0 [1, 2, 3] sparse_conn
           = Some (Inr (1, 3, ?wr), sc')
         \<and> wire (rwc sc') = [0, 0, 0, 15, 0, 0, 0, 0, 0, 0, 0, 1, 0, 0, 0, 1, 1, 2, 3]
         \<and> uuid_calls sc' = 2
         \<and> pending sc' = [0 \<mapsto> 0, 2 \<mapsto> 2, 1 \<mapsto> 3]
         \<and> responses sc' = (responses sparse_conn)(3 := new_response)
         \<and> next_response sc' = 4"
    by blast
  have hd: "untrack sparse_dead_conn = 0"
    "pending sparse_dead_conn (PoorManUUID test_env (uuid_calls sparse_dead_conn)) \<noteq> None"
    "pending sparse_dead_conn (PoorManUUID test_env (uuid_calls sparse_dead_conn + 1)) = None"
    by (simp_all add: sparse_conn_sel g)
  have ed: "sparse_dead_conn\<lparr>uuid_calls := uuid_calls sparse_dead_conn + 2,
                respes := Some (pending sparse_dead_conn)\<rparr>
          = sparse_dead_conn\<lparr>uuid_calls := 2\<rparr>"
    by (simp add: sparse_dead_conn_def sparse_conn_def test_conn_def pending_def)
  from writeFirstFrame_uuid [of test_env 1 0 "[1, 2, 3]" sparse_dead_conn] hd
  have "writeFirstFrame test_env 1 0 [1, 2, 3] sparse_dead_conn
       = writeFirstFrame_send test_env 1 0 [1, 2, 3]
           (PoorManUUID test_env (uuid_calls sparse_dead_conn + 1))
           (sparse_dead_conn\<lparr>uuid_calls := uuid_calls sparse_dead_conn + 2,
              respes := Some (pending sparse_dead_conn)\<rparr>)"
    by blast
  then have d: "writeFirstFrame test_env 1 0 [1, 2, 3] sparse_dead_conn
       = writeFirstFrame_send test_env 1 0 [1, 2, 3] 1 (sparse_dead_conn\<lparr>uuid_calls := 2\<rparr>)"
    unfolding ed by (simp add: g sparse_conn_sel)
  from sparse_dead_conn_send obtain sd where
    rd: "writeFirstFrame test_env 1 0 [1, 2, 3] sparse_dead_conn = Some (Inl (OtherErr 0), sd)"
    and wd: "rwc sd = \<lparr>wire = [], close_calls = 2, inbox = []\<rparr>" "mailbox_closed (responses sd 3)"
    unfolding d [symmetric] by blast
  from writeFirstFrame_uuid [of test_env 1 0 "[1, 2, 3]" sparse_dead_conn] rd
  have "pending sd = pending sparse_dead_conn"
    by blast
  then have "pending sd = [0 \<mapsto> 0, 2 \<mapsto> 2]" by (simp add: sparse_conn_sel)
  with rd wd have y: "\<exists>sc'. writeFirstFrame test_env 1 0 [1, 2, 3] sparse_dead_conn
           = Some (Inl (OtherErr 0), sc')
         \<and> rwc sc' = \<lparr>wire = [], close_calls = 2, inbox = []\<rparr>
         \<and> mailbox_closed (responses sc' 3)
         \<and> pending sc' = [0 \<mapsto> 0, 2 \<mapsto> 2]"
    by blast
  from h c hs s x hd y show ?thesis by (intro conjI) assumption+
qed

section \<open>The connection: readFrames\<close>

text \<open>
  Claim C6. When the frame read has \<open>FromServer\<close> and a response is pending under its
  request id, the turn of the reader removes the id from the map, calls \<open>SetResponse\<close> with
  the frame on that response, which puts the frame into its mailbox, leaves the other
  responses alone, sends nothing on \<open>readFrameCh\<close> and goes on with the next frame.
\<close>

theorem readFrames_pending_response:
  assumes "ReadFrame env (rwc sc) (cs sc) = (Inr req, n', cs')"
    and "FromServer env req"
    and "pending sc (RequestID req) = Some a"
  shows "\<exists>sc'. readFrames_turn env ch sc = Some (Continue sc')
           \<and> readFrames_loop env (ch # chs) sc = readFrames_loop env chs sc'
           \<and> pending sc' = (pending sc)(RequestID req := None)
           \<and> responses sc' a = SetResponse (responses sc a) req
           \<and> mailbox (responses sc' a) = mailbox (responses sc a) @ [req]
           \<and> (\<forall>b. b \<noteq> a \<longrightarrow> responses sc' b = responses sc b)
           \<and> readFrameCh sc' = readFrameCh sc"
proof -
  from assms(3) obtain m where m: "respes sc = Some m" "m (RequestID req) = Some a"
    by (cases "respes sc") (auto simp add: pending_def)
  let ?sc' = "sc\<lparr>rwc := n', cs := cs', respes := Some (m(RequestID req := None)),
                responses := (responses sc)(a := SetResponse (responses sc a) req)\<rparr>"
  have t: "readFrames_turn env ch sc = Some (Continue ?sc')"
    using assms(1,2) m by (simp add: readFrames_turn_def Let_def)
  have l: "readFrames_loop env (ch # chs) sc = readFrames_loop env chs ?sc'"
    by (simp add: t)
  have p: "pending ?sc' = (pending sc)(RequestID req := None)"
    using m by (simp add: pending_def)
  have b: "responses ?sc' a = SetResponse (responses sc a) req"
    "mailbox (responses ?sc' a) = mailbox (responses sc a) @ [req]"
    by (simp_all add: SetResponse_def)
  from t l p b show ?thesis by (intro exI [of _ ?sc']) simp
qed

text \<open>
  The hypotheses of the theorem for C6 hold on the example connection that waits for the
  reply to request 5.
\<close>

theorem readFrames_pending_response_witness:
  "ReadFrame test_env (rwc waiting_conn) (cs waiting_conn)
     = (Inr reply_frame, \<lparr>wire = [], close_calls = 0, inbox = []\<rparr>, cs waiting_conn)
   \<and> FromServer test_env reply_frame
   \<and> pending waiting_conn (RequestID reply_frame) = Some 0
   \<and> (\<exists>sc'. readFrames_turn test_env idle_sched waiting_conn = Some (Continue sc')
          \<and> pending sc' (RequestID reply_frame) = None
          \<and> mailbox (responses sc' 0) = [reply_frame]
          \<and> readFrameCh sc' = [])"
proof -
  have r: "ReadFrame test_env (rwc waiting_conn) (cs waiting_conn)
     = (Inr reply_frame, \<lparr>wire = [], close_calls = 0, inbox = []\<rparr>, cs waiting_conn)"
    by (simp add: test_env_def waiting_conn_def test_conn_def)
  have s: "FromServer test_env reply_frame"
    by (simp add: test_env_def reply_frame_def)
  have p: "pending waiting_conn (RequestID reply_frame) = Some 0"
    by (simp add: pending_def waiting_conn_def reply_frame_def)
  have i: "mailbox (responses waiting_conn 0) = []" "readFrameCh waiting_conn = []"
    by (simp_all add: waiting_conn_def test_conn_def new_response_def)
  from readFrames_pending_response [OF r s p, of idle_sched "[]"] obtain sc' where
    "readFrames_turn test_env idle_sched waiting_conn = Some (Continue sc')"
    "pending sc' = (pending waiting_conn)(RequestID reply_frame := None)"
    "mailbox (responses sc' 0) = mailbox (responses waiting_conn 0) @ [reply_frame]"
    "readFrameCh sc' = readFrameCh waiting_conn"
    by blast
  then have "readFrames_turn test_env idle_sched waiting_conn = Some (Continue sc')
          \<and> pending sc' (RequestID reply_frame) = None
          \<and> mailbox (responses sc' 0) = [reply_frame]
          \<and> readFrameCh sc' = []"
    by (simp add: i)
  then have "\<exists>sc'. readFrames_turn test_env idle_sched waiting_conn = Some (Continue sc')
          \<and> pending sc' (RequestID reply_frame) = None
          \<and> mailbox (responses sc' 0) = [reply_frame]
          \<and> readFrameCh sc' = []" ..
  with r s p show ?thesis by blast
qed

section \<open>The connection: Close\<close>

lemma sum_list_map_update:
  fixes h :: "'a \<Rightarrow> 'b::comm_monoid_add"
  shows "i < length xs \<Longrightarrow>
    sum_list (map h (xs[i := x])) + h (xs ! i) = sum_list (map h xs) + h x"
proof (induction xs arbitrary: i)
  case Nil
  then show ?case by simp
next
  case (Cons y ys)
  show ?case
  proof (cases i)
    case 0
    then show ?thesis by (simp add: ac_simps)
  next
    case (Suc k)
    with Cons.prems have "k < length ys" by simp
    from Cons.IH [OF this] Suc show ?thesis by (simp add: ac_simps)
  qed
qed

lemma pending_calls_update:
  "i < length pcs \<Longrightarrow>
     pending_calls (pcs[i := pc]) + mset (to_call (pcs ! i)) = pending_calls pcs + mset (to_call pc)"
  unfolding pending_calls_def by (rule sum_list_map_update)

lemma pending_calls_same:
  "i < length pcs \<Longrightarrow> to_call (pcs ! i) = to_call pc \<Longrightarrow> pending_calls (pcs[i := pc]) = pending_calls pcs"
  using pending_calls_update [of i pcs pc] by simp

lemma close_run_Nil [simp]: "close_run env [] cfg = cfg"
  by (simp add: close_run_def)

lemma close_run_Cons [simp]:
  "close_run env (i # sched) cfg = close_run env sched (close_sched_step env i cfg)"
  by (simp add: close_run_def)

lemma close_run_append:
  "close_run env (s1 @ s2) cfg = close_run env s2 (close_run env s1 cfg)"
  by (simp add: close_run_def)





















text \<open>A call of \<open>Close\<close> alone is the function \<open>Close\<close> of the sequential model.\<close>

lemma calling_run:
  "close_run env (replicate (Suc (length todo)) 0) (sc, [Calling todo])
     = (sc\<lparr>notified := notified sc @ todo\<rparr>, [Done None])"
proof (induction todo arbitrary: sc)
  case Nil
  then show ?case by simp
next
  case (Cons cb todo)
  have "close_run env (replicate (Suc (length (cb # todo))) 0) (sc, [Calling (cb # todo)])
          = close_run env (replicate (Suc (length todo)) 0)
              (sc\<lparr>notified := notified sc @ [cb]\<rparr>, [Calling todo])"
    by simp
  then show ?case by (simp only: Cons.IH) simp
qed

lemma closeUntracked_run:
  "\<exists>k. close_run env (replicate k 0) (sc, [AtRwcClose])
         = (snd (closeUntracked env sc), [Done (fst (closeUntracked env sc))])"
proof (cases "rwc_Close env (rwc sc)")
  case (Pair e n')
  show ?thesis
  proof (cases e)
    case (Some err)
    with Pair have "close_run env (replicate 1 0) (sc, [AtRwcClose])
         = (snd (closeUntracked env sc), [Done (fst (closeUntracked env sc))])"
      by (simp add: closeUntracked_def)
    then show ?thesis ..
  next
    case None
    let ?sc3 = "sc\<lparr>rwc := n', ctx_done := True, closed := True, closeNotify := []\<rparr>"
    have "close_run env (replicate 3 0) (sc, [AtRwcClose]) = (?sc3, [Calling (closeNotify sc)])"
      using Pair None by (simp add: numeral_3_eq_3)
    then have "close_run env (replicate 3 0 @ replicate (Suc (length (closeNotify sc))) 0)
                 (sc, [AtRwcClose])
               = (?sc3\<lparr>notified := notified ?sc3 @ closeNotify sc\<rparr>, [Done None])"
      by (simp only: close_run_append calling_run)
    moreover have "closeUntracked env sc
               = (None, ?sc3\<lparr>notified := notified ?sc3 @ closeNotify sc\<rparr>)"
      using Pair None by (simp add: closeUntracked_def)
    ultimately have "close_run env (replicate (3 + Suc (length (closeNotify sc))) 0)
                 (sc, [AtRwcClose])
         = (snd (closeUntracked env sc), [Done (fst (closeUntracked env sc))])"
      by (simp only: replicate_add fst_conv snd_conv)
    then show ?thesis ..
  qed
qed

lemma Close_single_call:
  assumes "Close env sc = Some (e, sc')"
  shows "\<exists>k. close_run env (replicate k 0) (sc, [AtUntrack]) = (sc', [Done e])"
proof -
  let ?sc1 = "snd (server_untrack sc)"
  from assms have c: "closeUntracked env ?sc1 = (e, sc')"
    and u: "untrack sc = 0 \<or> untrackedCh_closed sc"
    by (auto simp add: Close_def server_untrack_def split: if_splits prod.splits)
  have "close_run env (replicate 2 0) (sc, [AtUntrack]) = (?sc1, [AtRwcClose])"
    using u by (auto simp add: server_untrack_def numeral_2_eq_2)
  moreover obtain k where "close_run env (replicate k 0) (?sc1, [AtRwcClose]) = (sc', [Done e])"
    using closeUntracked_run [of env ?sc1] by (auto simp add: c)
  ultimately have "close_run env (replicate (2 + k) 0) (sc, [AtUntrack]) = (sc', [Done e])"
    by (simp only: replicate_add close_run_append)
  then show ?thesis ..
qed

lemma Close_single_call_blocked:
  assumes "Close env sc = None"
  shows "snd (close_run env (replicate k 0) (sc, [AtUntrack])) \<in> {[AtUntrack], [Waiting]}"
proof -
  from assms have u: "untrack sc \<noteq> 0" "\<not> untrackedCh_closed sc"
    by (auto simp add: Close_def server_untrack_def split: if_splits prod.splits)
  have w: "close_run env (replicate j 0) (sc, [Waiting]) = (sc, [Waiting])" for j
    using u by (induction j) simp_all
  show ?thesis
  proof (cases k)
    case 0
    then show ?thesis by simp
  next
    case (Suc j)
    then show ?thesis using u w [of j] by simp
  qed
qed

text \<open>The socket and the results of the calls.\<close>

lemma close_results_update:
  "i < length pcs \<Longrightarrow>
     close_results (pcs[i := pc]) + mset (close_result (pcs ! i))
       = close_results pcs + mset (close_result pc)"
  unfolding close_results_def by (rule sum_list_map_update)

lemma close_results_same:
  "i < length pcs \<Longrightarrow> close_result (pcs ! i) = close_result pc \<Longrightarrow>
     close_results (pcs[i := pc]) = close_results pcs"
  using close_results_update [of i pcs pc] by simp

lemma close_results_mem:
  "pc \<in> set pcs \<Longrightarrow> e \<in> set (close_result pc) \<Longrightarrow> e \<in># close_results pcs"
  by (induction pcs) (auto simp add: close_results_def)

lemma socket_closes_Suc:
  "socket_closes env n (Suc k) = socket_closes env n k @ [fst (rwc_Close env (socket_after env n k))]"
  by (simp add: socket_closes_def)

lemma close_thread_step_result:
  assumes "close_thread_step env sc pc = Some (sc', pc')"
  shows "(close_result pc' = close_result pc \<and> rwc sc' = rwc sc
          \<and> (close_result pc = [] \<longrightarrow> ctx_done sc' = ctx_done sc \<and> closed sc' = closed sc)
          \<and> (close_result pc = [] \<or> close_result pc = [None]))
       \<or> (pc = AtRwcClose \<and> close_result pc' = [fst (rwc_Close env (rwc sc))]
          \<and> rwc sc' = snd (rwc_Close env (rwc sc))
          \<and> ctx_done sc' = ctx_done sc \<and> closed sc' = closed sc)"
proof (cases pc)
  case AtUntrack
  with assms show ?thesis by (auto split: if_splits)
next
  case Untracking
  with assms show ?thesis by auto
next
  case Waiting
  with assms show ?thesis by (auto split: if_splits)
next
  case AtRwcClose
  obtain e n' where c: "rwc_Close env (rwc sc) = (e, n')" by (cases "rwc_Close env (rwc sc)")
  with assms AtRwcClose show ?thesis by (cases e) auto
next
  case AtCancel
  with assms show ?thesis by auto
next
  case AtLock
  with assms show ?thesis by auto
next
  case (Calling todo)
  with assms show ?thesis by (cases todo) auto
next
  case (Done e)
  with assms show ?thesis by simp
qed

lemma close_socket_inv_thread_step:
  assumes inv: "close_socket_inv env sc0 (sc, pcs)" and i: "i < length pcs"
    and st: "close_thread_step env sc (pcs ! i) = Some (sc', pc')"
  shows "close_socket_inv env sc0 (sc', pcs[i := pc'])"
proof -
  note mem = close_results_mem [OF nth_mem [OF i], of None]
  from inv have s: "rwc sc = socket_after env (rwc sc0) (size (close_results pcs))"
    and c: "close_results pcs = mset (socket_closes env (rwc sc0) (size (close_results pcs)))"
    and t: "None \<notin># close_results pcs \<longrightarrow> ctx_done sc = ctx_done sc0 \<and> closed sc = closed sc0"
    by (simp_all add: close_socket_inv_def)
  from close_thread_step_result [OF st] consider
    (same) "close_result pc' = close_result (pcs ! i)" "rwc sc' = rwc sc"
      "close_result (pcs ! i) = [] \<longrightarrow> ctx_done sc' = ctx_done sc \<and> closed sc' = closed sc"
      "close_result (pcs ! i) = [] \<or> close_result (pcs ! i) = [None]"
  | (close) "pcs ! i = AtRwcClose"
      "close_result pc' = [fst (rwc_Close env (rwc sc))]" "rwc sc' = snd (rwc_Close env (rwc sc))"
      "ctx_done sc' = ctx_done sc" "closed sc' = closed sc"
    by blast
  then show ?thesis
  proof cases
    case same
    from same(1) have r: "close_results (pcs[i := pc']) = close_results pcs"
      using close_results_same [OF i, of pc'] by simp
    have 1: "rwc sc' = socket_after env (rwc sc0) (size (close_results pcs))"
      using s same(2) by simp
    have 3: "None \<notin># close_results pcs \<longrightarrow> ctx_done sc' = ctx_done sc0 \<and> closed sc' = closed sc0"
    proof (cases "close_result (pcs ! i) = []")
      case True
      with same(3) t show ?thesis by simp
    next
      case False
      with same(4) mem have "None \<in># close_results pcs" by simp
      then show ?thesis by simp
    qed
    from 1 c 3 show ?thesis unfolding close_socket_inv_def prod.case r by (intro conjI)
  next
    case close
    let ?r = "fst (rwc_Close env (rwc sc))"
    from close_results_update [OF i, of pc'] close
    have r: "close_results (pcs[i := pc']) = add_mset ?r (close_results pcs)" by simp
    have z: "size (add_mset ?r (close_results pcs)) = Suc (size (close_results pcs))" by simp
    have 1: "rwc sc' = socket_after env (rwc sc0) (Suc (size (close_results pcs)))"
      using close(3) s by simp
    have "mset (socket_closes env (rwc sc0) (Suc (size (close_results pcs))))
            = add_mset (fst (rwc_Close env (socket_after env (rwc sc0) (size (close_results pcs)))))
                (mset (socket_closes env (rwc sc0) (size (close_results pcs))))"
      unfolding socket_closes_Suc by simp
    then have 2: "add_mset ?r (close_results pcs)
            = mset (socket_closes env (rwc sc0) (Suc (size (close_results pcs))))"
      using c s by simp
    have 3: "None \<notin># add_mset ?r (close_results pcs) \<longrightarrow>
               ctx_done sc' = ctx_done sc0 \<and> closed sc' = closed sc0"
      using t close(4,5) by simp
    from 1 2 3 show ?thesis unfolding close_socket_inv_def prod.case r z by (intro conjI)
  qed
qed

lemma close_socket_inv_sched_step:
  "close_socket_inv env sc0 cfg \<Longrightarrow> close_socket_inv env sc0 (close_sched_step env i cfg)"
  by (cases cfg) (auto split: option.splits intro: close_socket_inv_thread_step)

lemma close_socket_inv_run:
  "close_socket_inv env sc0 cfg \<Longrightarrow> close_socket_inv env sc0 (close_run env sched cfg)"
  by (induction sched arbitrary: cfg) (simp_all add: close_socket_inv_sched_step)

lemma close_results_replicate: "close_results (replicate n AtUntrack) = {#}"
  by (induction n) (simp_all add: close_results_def)

lemma close_socket_inv_init: "close_socket_inv env sc (sc, replicate n AtUntrack)"
  by (simp add: close_socket_inv_def close_results_replicate socket_closes_def)

lemma close_results_all_returned:
  "all_returned pcs \<Longrightarrow>
     close_results pcs = mset (returned_errors pcs) \<and> length (returned_errors pcs) = length pcs"
proof (induction pcs)
  case Nil
  then show ?case by (simp add: close_results_def returned_errors_def)
next
  case (Cons pc pcs)
  then show ?case
    by (cases pc) (simp_all add: close_results_def returned_errors_def all_returned_def)
qed

lemma past_lock_close_results:
  assumes "pc \<in> set pcs" "past_lock pc"
  shows "None \<in># close_results pcs"
proof -
  from assms(2) have "None \<in> set (close_result pc)"
    by (cases pc rule: past_lock.cases) simp_all
  with assms(1) show ?thesis by (rule close_results_mem)
qed

lemma Close_returns:
  assumes "Close env c = Some (e, c')"
  shows "e = fst (rwc_Close env (rwc c)) \<and> rwc c' = snd (rwc_Close env (rwc c))
       \<and> (if e = None
           then ctx_done c' \<and> closed c' \<and> closeNotify c' = []
                \<and> notified c' = notified c @ closeNotify c
           else ctx_done c' = ctx_done c \<and> closed c' = closed c
                \<and> closeNotify c' = closeNotify c \<and> notified c' = notified c)"
  using assms
  by (auto simp add: Close_def server_untrack_def closeUntracked_def
      split: if_splits prod.splits option.splits)







end
